theory Spec2Isabelle
  imports Complex_Main "HOL-Library.Multiset"
begin

section \<open>Task Tracker CLI (task\_cli.py): a shallow embedding\<close>

text \<open>
  The program keeps a list of tasks in the file \<^verbatim>\<open>tasks.json\<close>. Every command loads
  the whole file, changes the list in memory and writes the whole list back. The
  embedding follows the source function by function:

  \<^item> a decoded JSON value is a value of the datatype \<open>json\<close>; a task is a Python
    \<^verbatim>\<open>dict\<close>, modelled as an association list that keeps the insertion order of
    its keys;
  \<^item> the file system is a record \<open>fs\<close>: the content of \<^verbatim>\<open>tasks.json\<close> (absent,
    text that is not JSON, or a decoded document) and whether the file can be
    opened for reading and for writing;
  \<^item> every \<^verbatim>\<open>sys.exit(1)\<close> is a value \<open>Inl e\<close> of the result, with \<open>e\<close> the
    kind of failure; the text printed is not modelled;
  \<^item> \<^verbatim>\<open>now_iso()\<close> reads the clock: its result is the argument \<open>now\<close> of the
    commands that call it.

  A Python \<^verbatim>\<open>str\<close> is modelled as a \<open>string\<close> of 8-bit code points (Latin-1);
  code points above 255 are outside the model. The text encoding of the file is
  opaque: a file is identified with the value \<^verbatim>\<open>json.load\<close> returns for it.
\<close>

subsection \<open>JSON values and dictionaries\<close>

text \<open>
  A JSON number with a fraction or an exponent is a Python \<^verbatim>\<open>float\<close>. Only its
  equality with an integer is used by the program, which Python decides on the
  exact values; a finite float is represented by its exact rational value.
\<close>

datatype pyfloat = Finite rat | PosInf | NegInf | NaN

datatype json =
    JNull
  | JBool bool
  | JInt int
  | JFloat pyfloat
  | JStr string
  | JList "json list"
  | JDict "(string \<times> json) list"

type_synonym task = "(string \<times> json) list"

text \<open>\<^verbatim>\<open>t.get(k)\<close>: the value stored under \<open>k\<close>, \<^verbatim>\<open>None\<close> when the key is absent.\<close>

definition py_get :: "task \<Rightarrow> string \<Rightarrow> json" where
  "py_get t k = (case map_of t k of None \<Rightarrow> JNull | Some v \<Rightarrow> v)"

text \<open>\<^verbatim>\<open>t.get(k, d)\<close>.\<close>

definition py_get_default :: "task \<Rightarrow> string \<Rightarrow> json \<Rightarrow> json" where
  "py_get_default t k d = (case map_of t k of None \<Rightarrow> d | Some v \<Rightarrow> v)"

text \<open>
  \<^verbatim>\<open>t[k] = v\<close>: an existing key keeps its position and gets the new value, a new
  key is added at the end.
\<close>

fun dict_set :: "task \<Rightarrow> string \<Rightarrow> json \<Rightarrow> task" where
  "dict_set [] k v = [(k, v)]"
| "dict_set ((k', v') # kvs) k v =
     (if k' = k then (k, v) # kvs else (k', v') # dict_set kvs k v)"

text \<open>
  \<^verbatim>\<open>isinstance(v, int)\<close> holds for \<^verbatim>\<open>int\<close> and for \<^verbatim>\<open>bool\<close> (a subclass of
  \<^verbatim>\<open>int\<close>, with \<^verbatim>\<open>True\<close> counting as 1 and \<^verbatim>\<open>False\<close> as 0); \<open>as_int\<close> gives
  the integer value in these cases.
\<close>

fun as_int :: "json \<Rightarrow> int option" where
  "as_int (JInt i) = Some i"
| "as_int (JBool b) = Some (if b then 1 else 0)"
| "as_int _ = None"

text \<open>\<^verbatim>\<open>v == i\<close> for a decoded JSON value \<open>v\<close> and an \<^verbatim>\<open>int\<close> \<open>i\<close>.\<close>

fun eq_int :: "json \<Rightarrow> int \<Rightarrow> bool" where
  "eq_int (JInt j) i = (j = i)"
| "eq_int (JBool b) i = ((if b then 1 else 0) = i)"
| "eq_int (JFloat (Finite r)) i = (r = of_int i)"
| "eq_int _ i = False"

text \<open>\<^verbatim>\<open>v == s\<close> for a decoded JSON value \<open>v\<close> and a \<^verbatim>\<open>str\<close> \<open>s\<close>.\<close>

fun eq_str :: "json \<Rightarrow> string \<Rightarrow> bool" where
  "eq_str (JStr s') s = (s' = s)"
| "eq_str _ s = False"

subsection \<open>Strings\<close>

text \<open>
  \<^verbatim>\<open>str.strip()\<close> removes the characters for which \<^verbatim>\<open>str.isspace()\<close> holds from
  both ends: in the Latin-1 range the code points 9 to 13, 28 to 32, 133 and 160.
\<close>

definition isspace :: "char \<Rightarrow> bool" where
  "isspace c = (c \<in> set [CHR 0x09, CHR 0x0A, CHR 0x0B, CHR 0x0C, CHR 0x0D,
                          CHR 0x1C, CHR 0x1D, CHR 0x1E, CHR 0x1F, CHR 0x20,
                          CHR 0x85, CHR 0xA0])"

definition strip :: "string \<Rightarrow> string" where
  "strip s = rev (dropWhile isspace (rev (dropWhile isspace s)))"

text \<open>\<^verbatim>\<open>sep.join(xs)\<close>.\<close>

fun join :: "string \<Rightarrow> string list \<Rightarrow> string" where
  "join sep [] = []"
| "join sep [x] = x"
| "join sep (x # y # ys) = x @ sep @ join sep (y # ys)"

text \<open>
  \<^verbatim>\<open>str.lower()\<close>, character by character: in the Latin-1 range the letters A to Z
  and the code points 192 to 222 except 215 move up by 32.
\<close>

definition lower_char :: "char \<Rightarrow> char" where
  "lower_char c =
     (let n = (of_char c :: nat)
      in if (65 \<le> n \<and> n \<le> 90) \<or> (192 \<le> n \<and> n \<le> 222 \<and> n \<noteq> 215)
         then char_of (n + 32) else c)"

definition lower :: "string \<Rightarrow> string" where
  "lower s = map lower_char s"

text \<open>
  \<^verbatim>\<open>int(s)\<close> for a \<^verbatim>\<open>str\<close>: white space at both ends is skipped (the code points
  9 to 13, 32, 133 and 160; not 28 to 31), then comes an optional sign and a
  non-empty run of decimal digits in which single underscores may stand between
  two digits. Anything else raises \<^verbatim>\<open>ValueError\<close>, here \<open>None\<close>. A literal of
  more digits than the interpreter's limit for one conversion raises
  \<^verbatim>\<open>ValueError\<close> too; the digits are counted with leading zeros and without the
  underscores, the sign and the white space. \<open>int_max_str_digits\<close> is the limit
  of an interpreter started with its default settings
  (\<^verbatim>\<open>sys.get_int_max_str_digits()\<close>).
\<close>

definition int_space :: "char \<Rightarrow> bool" where
  "int_space c = (c \<in> set [CHR 0x09, CHR 0x0A, CHR 0x0B, CHR 0x0C, CHR 0x0D,
                            CHR 0x20, CHR 0x85, CHR 0xA0])"

definition digit_val :: "char \<Rightarrow> nat option" where
  "digit_val c =
     (let n = (of_char c :: nat) in if 48 \<le> n \<and> n \<le> 57 then Some (n - 48) else None)"

fun int_digits :: "nat \<Rightarrow> bool \<Rightarrow> string \<Rightarrow> nat option" where
  "int_digits acc prev_digit [] = (if prev_digit then Some acc else None)"
| "int_digits acc prev_digit (c # cs) =
     (if c = CHR ''_'' then (if prev_digit then int_digits acc False cs else None)
      else (case digit_val c of
              None \<Rightarrow> None
            | Some d \<Rightarrow> int_digits (10 * acc + d) True cs))"

definition int_max_str_digits :: nat where
  "int_max_str_digits = 4300"

definition int_literal :: "string \<Rightarrow> nat option" where
  "int_literal cs =
     (if int_max_str_digits < length (filter (\<lambda>c. c \<noteq> CHR ''_'') cs) then None
      else int_digits 0 False cs)"

definition py_int :: "string \<Rightarrow> int option" where
  "py_int s =
     (case rev (dropWhile int_space (rev (dropWhile int_space s))) of
        [] \<Rightarrow> None
      | c # cs \<Rightarrow>
          if c = CHR ''-'' then map_option (\<lambda>n. - int n) (int_literal cs)
          else if c = CHR ''+'' then map_option int (int_literal cs)
          else map_option int (int_literal (c # cs)))"

subsection \<open>Failures, outcomes and the file system\<close>

text \<open>
  The ways a command ends the process with \<^verbatim>\<open>sys.exit(1)\<close> or with an uncaught
  exception:
  \<^item> \<open>UsageError\<close>: the wrong number of arguments (the usage text is printed);
  \<^item> \<open>EmptyInput\<close>, \<open>InvalidId\<close>, \<open>NotFound\<close>, \<open>InvalidFilter\<close>: the validation
    failures of the commands;
  \<^item> \<open>StorageUnreadable\<close>: the file is not valid JSON, or not a JSON array;
  \<^item> \<open>StorageIOFailure\<close>: an \<^verbatim>\<open>OSError\<close> when the file is opened;
  \<^item> \<open>NonIntegerSortKey\<close>: \<^verbatim>\<open>sorted\<close> was called on at least two tasks whose
    \<^verbatim>\<open>id\<close> values are not all integers. Python then compares values of other
    types, which raises \<^verbatim>\<open>TypeError\<close> (for \<^verbatim>\<open>None\<close>, for a \<^verbatim>\<open>dict\<close>, for a \<^verbatim>\<open>str\<close>
    against a number) or orders by that type's own comparison (floats among
    numbers, texts among texts) and returns without an error. These
    comparisons are not modelled: the model stops with this outcome, which
    stands for both. The model of \<^verbatim>\<open>sorted\<close> is exact where every id is an
    integer or absent.
\<close>

datatype error =
    UsageError
  | EmptyInput
  | InvalidId
  | NotFound
  | InvalidFilter
  | StorageUnreadable
  | StorageIOFailure
  | NonIntegerSortKey

text \<open>What a command that succeeds reports.\<close>

datatype outcome =
    Added int
  | Updated int
  | Deleted int
  | Marked int string
  | Listed "task list"

text \<open>
  The content of \<^verbatim>\<open>tasks.json\<close>: text that \<^verbatim>\<open>json.load\<close> rejects, or the value
  it decodes to.
\<close>

datatype content = Malformed | Doc json

record fs =
  db_file :: "content option"
  readable :: bool
  writable :: bool

definition VALID_STATUSES :: "string set" where
  "VALID_STATUSES = {''todo'', ''in-progress'', ''done''}"

subsection \<open>Persistence\<close>

text \<open>
  \<^verbatim>\<open>ensure_db_exists\<close>: a missing file is created holding the empty array; when
  it cannot be created the process exits.
\<close>

definition ensure_db_exists :: "fs \<Rightarrow> (error + unit) \<times> fs" where
  "ensure_db_exists s =
     (if db_file s = None
      then (if writable s
            then (Inr (), s\<lparr>db_file := Some (Doc (JList []))\<rparr>)
            else (Inl StorageIOFailure, s))
      else (Inr (), s))"

text \<open>\<^verbatim>\<open>[t for t in data if isinstance(t, dict)]\<close>.\<close>

fun dicts :: "json list \<Rightarrow> task list" where
  "dicts [] = []"
| "dicts (JDict d # xs) = d # dicts xs"
| "dicts (x # xs) = dicts xs"

definition load_tasks :: "fs \<Rightarrow> (error + task list) \<times> fs" where
  "load_tasks s =
     (case ensure_db_exists s of
        (Inl e, s1) \<Rightarrow> (Inl e, s1)
      | (Inr u, s1) \<Rightarrow>
          if \<not> readable s1 then (Inl StorageIOFailure, s1)
          else (case db_file s1 of
                  None \<Rightarrow> (Inl StorageIOFailure, s1)
                | Some Malformed \<Rightarrow> (Inl StorageUnreadable, s1)
                | Some (Doc (JList data)) \<Rightarrow> (Inr (dicts data), s1)
                | Some (Doc other) \<Rightarrow> (Inl StorageUnreadable, s1)))"

text \<open>\<^verbatim>\<open>save_tasks\<close>: the file is overwritten with the encoding of the whole list.\<close>

definition save_tasks :: "task list \<Rightarrow> fs \<Rightarrow> (error + unit) \<times> fs" where
  "save_tasks tasks s =
     (if writable s
      then (Inr (), s\<lparr>db_file := Some (Doc (JList (map JDict tasks)))\<rparr>)
      else (Inl StorageIOFailure, s))"

subsection \<open>Helpers of the commands\<close>

text \<open>The loop of \<^verbatim>\<open>next_id\<close>, with the running maximum as its first argument.\<close>

fun next_id_loop :: "int \<Rightarrow> task list \<Rightarrow> int" where
  "next_id_loop max_id [] = max_id"
| "next_id_loop max_id (t # ts) =
     (case as_int (py_get t ''id'') of
        None \<Rightarrow> next_id_loop max_id ts
      | Some tid \<Rightarrow> if tid > max_id then next_id_loop tid ts else next_id_loop max_id ts)"

definition next_id :: "task list \<Rightarrow> int" where
  "next_id tasks = next_id_loop 0 tasks + 1"

definition parse_id :: "string \<Rightarrow> error + int" where
  "parse_id s =
     (case py_int s of
        None \<Rightarrow> Inl InvalidId
      | Some i \<Rightarrow> if i \<le> 0 then Inl InvalidId else Inr i)"

text \<open>
  \<^verbatim>\<open>find_task\<close> returns the first dictionary of the list whose \<^verbatim>\<open>id\<close> equals
  \<open>task_id\<close>, by reference: the caller's assignments to it change the element of
  the list. The reference is modelled by the position of the element.
\<close>

fun find_task :: "task list \<Rightarrow> int \<Rightarrow> nat option" where
  "find_task [] task_id = None"
| "find_task (t # ts) task_id =
     (if eq_int (py_get t ''id'') task_id then Some 0
      else map_option Suc (find_task ts task_id))"

definition set_status :: "task \<Rightarrow> string \<Rightarrow> string \<Rightarrow> task" where
  "set_status task status now =
     dict_set (dict_set task ''status'' (JStr status)) ''updatedAt'' (JStr now)"

subsection \<open>The commands\<close>

definition cmd_add :: "string list \<Rightarrow> string \<Rightarrow> fs \<Rightarrow> (error + outcome) \<times> fs" where
  "cmd_add args now s =
     (if length args < 1 then (Inl UsageError, s)
      else
        let description = strip (join '' '' args) in
        if description = [] then (Inl EmptyInput, s)
        else (case load_tasks s of
                (Inl e, s1) \<Rightarrow> (Inl e, s1)
              | (Inr tasks, s1) \<Rightarrow>
                  let tid = next_id tasks;
                      ts = now;
                      task = [(''id'', JInt tid),
                              (''description'', JStr description),
                              (''status'', JStr ''todo''),
                              (''createdAt'', JStr ts),
                              (''updatedAt'', JStr ts)]
                  in (case save_tasks (tasks @ [task]) s1 of
                        (Inl e, s2) \<Rightarrow> (Inl e, s2)
                      | (Inr u, s2) \<Rightarrow> (Inr (Added tid), s2))))"

text \<open>
  In \<^verbatim>\<open>cmd_update\<close> and the two \<^verbatim>\<open>mark\<close> commands the test \<^verbatim>\<open>if not task\<close> holds
  when \<^verbatim>\<open>find_task\<close> returned \<^verbatim>\<open>None\<close> and also when it returned an empty
  dictionary.
\<close>

definition cmd_update :: "string list \<Rightarrow> string \<Rightarrow> fs \<Rightarrow> (error + outcome) \<times> fs" where
  "cmd_update args now s =
     (if length args < 2 then (Inl UsageError, s)
      else (case parse_id (hd args) of
              Inl e \<Rightarrow> (Inl e, s)
            | Inr task_id \<Rightarrow>
                let new_description = strip (join '' '' (tl args)) in
                if new_description = [] then (Inl EmptyInput, s)
                else (case load_tasks s of
                        (Inl e, s1) \<Rightarrow> (Inl e, s1)
                      | (Inr tasks, s1) \<Rightarrow>
                          (case find_task tasks task_id of
                             None \<Rightarrow> (Inl NotFound, s1)
                           | Some i \<Rightarrow>
                               if tasks ! i = [] then (Inl NotFound, s1)
                               else
                                 let task = dict_set (tasks ! i) ''description''
                                              (JStr new_description);
                                     task = dict_set task ''updatedAt'' (JStr now)
                                 in (case save_tasks (tasks[i := task]) s1 of
                                       (Inl e, s2) \<Rightarrow> (Inl e, s2)
                                     | (Inr u, s2) \<Rightarrow> (Inr (Updated task_id), s2))))))"

definition cmd_delete :: "string list \<Rightarrow> fs \<Rightarrow> (error + outcome) \<times> fs" where
  "cmd_delete args s =
     (if length args \<noteq> 1 then (Inl UsageError, s)
      else (case parse_id (hd args) of
              Inl e \<Rightarrow> (Inl e, s)
            | Inr task_id \<Rightarrow>
                (case load_tasks s of
                   (Inl e, s1) \<Rightarrow> (Inl e, s1)
                 | (Inr tasks, s1) \<Rightarrow>
                     let n_before = length tasks;
                         tasks' = filter (\<lambda>t. \<not> eq_int (py_get t ''id'') task_id) tasks;
                         n_after = length tasks'
                     in if n_after = n_before then (Inl NotFound, s1)
                        else (case save_tasks tasks' s1 of
                                (Inl e, s2) \<Rightarrow> (Inl e, s2)
                              | (Inr u, s2) \<Rightarrow> (Inr (Deleted task_id), s2)))))"

definition cmd_mark_in_progress :: "string list \<Rightarrow> string \<Rightarrow> fs \<Rightarrow> (error + outcome) \<times> fs" where
  "cmd_mark_in_progress args now s =
     (if length args \<noteq> 1 then (Inl UsageError, s)
      else (case parse_id (hd args) of
              Inl e \<Rightarrow> (Inl e, s)
            | Inr task_id \<Rightarrow>
                (case load_tasks s of
                   (Inl e, s1) \<Rightarrow> (Inl e, s1)
                 | (Inr tasks, s1) \<Rightarrow>
                     (case find_task tasks task_id of
                        None \<Rightarrow> (Inl NotFound, s1)
                      | Some i \<Rightarrow>
                          if tasks ! i = [] then (Inl NotFound, s1)
                          else (case save_tasks
                                       (tasks[i := set_status (tasks ! i) ''in-progress'' now]) s1 of
                                  (Inl e, s2) \<Rightarrow> (Inl e, s2)
                                | (Inr u, s2) \<Rightarrow>
                                    (Inr (Marked task_id ''in-progress''), s2))))))"

definition cmd_mark_done :: "string list \<Rightarrow> string \<Rightarrow> fs \<Rightarrow> (error + outcome) \<times> fs" where
  "cmd_mark_done args now s =
     (if length args \<noteq> 1 then (Inl UsageError, s)
      else (case parse_id (hd args) of
              Inl e \<Rightarrow> (Inl e, s)
            | Inr task_id \<Rightarrow>
                (case load_tasks s of
                   (Inl e, s1) \<Rightarrow> (Inl e, s1)
                 | (Inr tasks, s1) \<Rightarrow>
                     (case find_task tasks task_id of
                        None \<Rightarrow> (Inl NotFound, s1)
                      | Some i \<Rightarrow>
                          if tasks ! i = [] then (Inl NotFound, s1)
                          else (case save_tasks
                                       (tasks[i := set_status (tasks ! i) ''done'' now]) s1 of
                                  (Inl e, s2) \<Rightarrow> (Inl e, s2)
                                | (Inr u, s2) \<Rightarrow> (Inr (Marked task_id ''done''), s2))))))"

text \<open>
  The key \<^verbatim>\<open>sorted\<close> orders by in \<^verbatim>\<open>cmd_list\<close>: \<^verbatim>\<open>x.get("id", 10**9)\<close>.
\<close>

definition list_key :: "task \<Rightarrow> json" where
  "list_key x = py_get_default x ''id'' (JInt (10 ^ 9))"

definition int_key :: "task \<Rightarrow> int" where
  "int_key x = (case as_int (list_key x) of None \<Rightarrow> 0 | Some i \<Rightarrow> i)"

text \<open>
  \<^verbatim>\<open>sorted(tasks, key=...)\<close>: a stable sort. On integer keys (with \<^verbatim>\<open>bool\<close>
  counting as 0 and 1) every stable sort returns the list \<open>sort_key\<close> returns.
  A list of at most one task is returned as it is, without any comparison.
\<close>

definition sorted_by_id :: "task list \<Rightarrow> error + task list" where
  "sorted_by_id tasks =
     (if list_all (\<lambda>x. as_int (list_key x) \<noteq> None) tasks then Inr (sort_key int_key tasks)
      else if length tasks \<le> 1 then Inr tasks
      else Inl NonIntegerSortKey)"

text \<open>
  \<^verbatim>\<open>cmd_list\<close> loads the tasks before it looks at its arguments. The variable
  \<^verbatim>\<open>status_filter\<close> is \<^verbatim>\<open>None\<close> without an argument; the test
  \<^verbatim>\<open>if status_filter\<close> holds for a filter that is not the empty text. When no
  task is left the command prints that none was found and returns before
  \<^verbatim>\<open>sorted\<close> is called.
\<close>

definition cmd_list :: "string list \<Rightarrow> fs \<Rightarrow> (error + outcome) \<times> fs" where
  "cmd_list args s =
     (case load_tasks s of
        (Inl e, s1) \<Rightarrow> (Inl e, s1)
      | (Inr tasks, s1) \<Rightarrow>
          (case (if length args = 1
                 then (let status_filter = lower (strip (hd args))
                       in if status_filter \<notin> VALID_STATUSES then Inl InvalidFilter
                          else Inr (Some status_filter))
                 else if length args > 1 then Inl UsageError
                 else Inr None) of
             Inl e \<Rightarrow> (Inl e, s1)
           | Inr status_filter \<Rightarrow>
               let tasks =
                     (case status_filter of
                        None \<Rightarrow> tasks
                      | Some f \<Rightarrow>
                          if f \<noteq> [] then filter (\<lambda>t. eq_str (py_get t ''status'') f) tasks
                          else tasks)
               in if tasks = [] then (Inr (Listed []), s1)
                  else (case sorted_by_id tasks of
                          Inl e \<Rightarrow> (Inl e, s1)
                        | Inr tasks_sorted \<Rightarrow> (Inr (Listed tasks_sorted), s1))))"

section \<open>Notions used in the statements\<close>

text \<open>
  The tasks a command finds when it loads the file: the dictionaries of the stored
  array, and no task when the file is missing.
\<close>

definition stored :: "fs \<Rightarrow> task list" where
  "stored s = (case db_file s of Some (Doc (JList data)) \<Rightarrow> dicts data | _ \<Rightarrow> [])"

text \<open>
  The integer ids of a list of tasks, in order: the values \<^verbatim>\<open>next_id\<close> looks at.
  A task has an integer id when \<^verbatim>\<open>isinstance(t.get("id"), int)\<close> holds.
\<close>

fun int_ids :: "task list \<Rightarrow> int list" where
  "int_ids [] = []"
| "int_ids (t # ts) =
     (case as_int (py_get t ''id'') of None \<Rightarrow> int_ids ts | Some i \<Rightarrow> i # int_ids ts)"

definition has_int_id :: "task \<Rightarrow> bool" where
  "has_int_id t = (as_int (py_get t ''id'') \<noteq> None)"

text \<open>Every task has an integer id, and the ids increase strictly along the list.\<close>

definition ids_increasing :: "task list \<Rightarrow> bool" where
  "ids_increasing tasks = (list_all has_int_id tasks \<and> sorted_wrt (<) (int_ids tasks))"

text \<open>
  The ids of a collection are unique: every task has an integer id, and no two
  tasks have the same id.
\<close>

definition unique_ids :: "task list \<Rightarrow> bool" where
  "unique_ids tasks = (list_all has_int_id tasks \<and> distinct (int_ids tasks))"

text \<open>The dictionary \<^verbatim>\<open>cmd_add\<close> builds.\<close>

definition new_task :: "int \<Rightarrow> string \<Rightarrow> string \<Rightarrow> task" where
  "new_task tid description ts =
     [(''id'', JInt tid), (''description'', JStr description), (''status'', JStr ''todo''),
      (''createdAt'', JStr ts), (''updatedAt'', JStr ts)]"

text \<open>
  A sequence of invocations of \<^verbatim>\<open>add\<close> and \<^verbatim>\<open>delete\<close>: \<open>Add args now\<close> is
  \<^verbatim>\<open>cmd_add\<close> on the arguments \<open>args\<close> when the clock reads \<open>now\<close>, \<open>Delete args\<close>
  is \<^verbatim>\<open>cmd_delete\<close> on \<open>args\<close>. Each invocation is a process of its own: it
  starts from the file the one before left, and a failing invocation does not
  stop the ones after it. \<open>run\<close> returns what each invocation reported and the
  final file system; \<open>added_ids\<close> collects the ids the successful \<^verbatim>\<open>add\<close>
  invocations reported.
\<close>

datatype command = Add "string list" string | Delete "string list"

fun exec :: "command \<Rightarrow> fs \<Rightarrow> (error + outcome) \<times> fs" where
  "exec (Add args now) s = cmd_add args now s"
| "exec (Delete args) s = cmd_delete args s"

fun run :: "command list \<Rightarrow> fs \<Rightarrow> (error + outcome) list \<times> fs" where
  "run [] s = ([], s)"
| "run (c # cs) s =
     (case exec c s of (r, s1) \<Rightarrow> (case run cs s1 of (rs, s2) \<Rightarrow> (r # rs, s2)))"

fun added_ids :: "(error + outcome) list \<Rightarrow> int list" where
  "added_ids [] = []"
| "added_ids (Inr (Added i) # rs) = i # added_ids rs"
| "added_ids (r # rs) = added_ids rs"

fun is_add :: "command \<Rightarrow> bool" where
  "is_add (Add args now) = True"
| "is_add (Delete args) = False"

text \<open>The decoded values that are JSON objects (Python \<^verbatim>\<open>dict\<close>) and arrays (\<^verbatim>\<open>list\<close>).\<close>

fun is_dict :: "json \<Rightarrow> bool" where
  "is_dict (JDict d) = True"
| "is_dict v = False"

fun is_list :: "json \<Rightarrow> bool" where
  "is_list (JList xs) = True"
| "is_list v = False"

text \<open>\<^verbatim>\<open>save_tasks(load_tasks())\<close>: the loaded list is written back as it is.\<close>

definition save_loaded :: "fs \<Rightarrow> (error + unit) \<times> fs" where
  "save_loaded s =
     (case load_tasks s of
        (Inl e, s1) \<Rightarrow> (Inl e, s1)
      | (Inr tasks, s1) \<Rightarrow> save_tasks tasks s1)"

text \<open>\<^verbatim>\<open>t.get("id") == i\<close>: the task \<open>t\<close> has the id \<open>i\<close>.\<close>

definition has_id :: "int \<Rightarrow> task \<Rightarrow> bool" where
  "has_id i t = eq_int (py_get t ''id'') i"

text \<open>
  The id token is a positive integer: \<^verbatim>\<open>int(tok)\<close> succeeds and its value is above 0.
\<close>

definition valid_id_token :: "string \<Rightarrow> bool" where
  "valid_id_token tok = (case py_int tok of None \<Rightarrow> False | Some i \<Rightarrow> 0 < i)"

text \<open>
  The file system \<open>s'\<close> a command leaves is the file system \<open>s\<close> as loaded: it is
  \<open>s\<close> itself or \<open>s\<close> after \<^verbatim>\<open>load_tasks\<close> (which creates a missing file holding the
  empty array), it is \<open>s\<close> itself when the file existed, and it holds the same
  tasks and loads to the same result as \<open>s\<close>.
\<close>

definition left_as_loaded :: "fs \<Rightarrow> fs \<Rightarrow> bool" where
  "left_as_loaded s s' =
     ((s' = s \<or> s' = snd (load_tasks s)) \<and> stored s' = stored s \<and>
      fst (load_tasks s') = fst (load_tasks s) \<and> (db_file s \<noteq> None \<longrightarrow> s' = s))"

text \<open>\<^verbatim>\<open>t.get("status") == f\<close>: the task \<open>t\<close> has the status \<open>f\<close>.\<close>

definition has_status :: "string \<Rightarrow> task \<Rightarrow> bool" where
  "has_status f t = eq_str (py_get t ''status'') f"

subsection \<open>File systems used as examples\<close>

text \<open>The file system of a first run: no file yet, and the directory can be written.\<close>

definition empty_fs :: fs where
  "empty_fs = \<lparr>db_file = None, readable = True, writable = True\<rparr>"

text \<open>A file holding two tasks, with the ids 4 and 2.\<close>

definition two_fs :: fs where
  "two_fs = \<lparr>db_file = Some (Doc (JList [JDict [(''id'', JInt 4), (''description'', JStr ''x'')],
                                         JDict [(''id'', JInt 2)]])),
          readable = True, writable = True\<rparr>"

text \<open>A file whose array holds a number between two tasks.\<close>

definition mixed_fs :: fs where
  "mixed_fs = \<lparr>db_file = Some (Doc (JList [JDict [(''id'', JInt 1)], JInt 7,
                                              JDict [(''id'', JInt 2)]])),
               readable = True, writable = True\<rparr>"

text \<open>A file that is not JSON, and a file whose JSON value is an object.\<close>

definition malformed_fs :: fs where
  "malformed_fs = \<lparr>db_file = Some Malformed, readable = True, writable = True\<rparr>"

definition object_fs :: fs where
  "object_fs = \<lparr>db_file = Some (Doc (JDict [(''id'', JInt 1)])), readable = True, writable = True\<rparr>"

text \<open>A file holding a task that is still to do and a task that is done.\<close>

definition task_todo :: task where
  "task_todo = [(''id'', JInt 1), (''description'', JStr ''a''), (''status'', JStr ''todo''),
                (''createdAt'', JStr ''t1''), (''updatedAt'', JStr ''t1'')]"

definition task_done :: task where
  "task_done = [(''id'', JInt 2), (''description'', JStr ''b''), (''status'', JStr ''done''),
                (''createdAt'', JStr ''t2''), (''updatedAt'', JStr ''t3'')]"

definition done_fs :: fs where
  "done_fs = \<lparr>db_file = Some (Doc (JList [JDict task_todo, JDict task_done])),
              readable = True, writable = True\<rparr>"

text \<open>A read-only file holding three tasks, stored in the order of the ids 3, 1, 2.\<close>

definition task3 :: task where
  "task3 = [(''id'', JInt 3), (''description'', JStr ''c''), (''status'', JStr ''todo'')]"

definition task1 :: task where
  "task1 = [(''id'', JInt 1), (''description'', JStr ''a''), (''status'', JStr ''done'')]"

definition task2 :: task where
  "task2 = [(''id'', JInt 2), (''description'', JStr ''b''), (''status'', JStr ''todo'')]"

definition list_fs :: fs where
  "list_fs = \<lparr>db_file = Some (Doc (JList [JDict task3, JDict task1, JDict task2])),
              readable = True, writable = False\<rparr>"

text \<open>The file two invocations of \<^verbatim>\<open>add\<close> leave on a first run.\<close>

definition built_fs :: fs where
  "built_fs = snd (run [Add [''a''] ''t1'', Add [''b''] ''t2''] empty_fs)"

section \<open>Basic facts\<close>

subsection \<open>\<^verbatim>\<open>next_id\<close> is one more than the largest integer id\<close>

lemma int_ids_append: "int_ids (xs @ ys) = int_ids xs @ int_ids ys"
  by (induction xs) (auto split: option.splits)

lemma next_id_loop_ge: "m \<le> next_id_loop m ts"
proof (induction ts arbitrary: m)
  case Nil
  show ?case by simp
next
  case (Cons t ts)
  show ?case
  proof (cases "as_int (py_get t ''id'')")
    case None
    then show ?thesis using Cons.IH [of m] by simp
  next
    case (Some i)
    then show ?thesis using Cons.IH [of m] Cons.IH [of i] by auto
  qed
qed

lemma next_id_loop_upper: "i \<in> set (int_ids ts) \<Longrightarrow> i \<le> next_id_loop m ts"
proof (induction ts arbitrary: m)
  case Nil
  then show ?case by simp
next
  case (Cons t ts)
  show ?case
  proof (cases "as_int (py_get t ''id'')")
    case None
    then show ?thesis using Cons by simp
  next
    case (Some j)
    show ?thesis
    proof (cases "i = j")
      case True
      then show ?thesis
        using Some next_id_loop_ge [of j ts] next_id_loop_ge [of m ts] by auto
    next
      case False
      then have "i \<in> set (int_ids ts)" using Cons.prems Some by simp
      then show ?thesis using Some Cons.IH by auto
    qed
  qed
qed

lemma next_id_loop_mem: "next_id_loop m ts \<in> insert m (set (int_ids ts))"
proof (induction ts arbitrary: m)
  case Nil
  show ?case by simp
next
  case (Cons t ts)
  show ?case
  proof (cases "as_int (py_get t ''id'')")
    case None
    then show ?thesis using Cons.IH [of m] by simp
  next
    case (Some j)
    then show ?thesis using Cons.IH [of m] Cons.IH [of j] by auto
  qed
qed

lemma next_id_loop_Max: "next_id_loop m ts = Max (insert m (set (int_ids ts)))"
proof (rule sym, rule Max_eqI)
  show "finite (insert m (set (int_ids ts)))" by simp
  show "\<And>y. y \<in> insert m (set (int_ids ts)) \<Longrightarrow> y \<le> next_id_loop m ts"
    using next_id_loop_ge next_id_loop_upper by auto
  show "next_id_loop m ts \<in> insert m (set (int_ids ts))" by (rule next_id_loop_mem)
qed

lemma next_id_Max: "next_id tasks = 1 + Max (insert 0 (set (int_ids tasks)))"
  by (simp add: next_id_def next_id_loop_Max)

lemma next_id_greater: "i \<in> set (int_ids tasks) \<Longrightarrow> i < next_id tasks"
  using next_id_loop_upper [of i tasks 0] by (simp add: next_id_def)

lemma next_id_positive: "0 < next_id tasks"
  using next_id_loop_ge [of 0 tasks] by (simp add: next_id_def)


lemma dicts_map_JDict [simp]: "dicts (map JDict ts) = ts"
  by (induction ts) auto

lemma dicts_append [simp]: "dicts (xs @ ys) = dicts xs @ dicts ys"
  by (induction xs rule: dicts.induct) auto

lemma stored_update [simp]: "stored (s\<lparr>db_file := Some (Doc (JList data))\<rparr>) = dicts data"
  by (simp add: stored_def)

lemma load_tasks_state:
  assumes "load_tasks s = (r, s1)"
  shows "s1 = s \<or> (db_file s = None \<and> writable s \<and> s1 = s\<lparr>db_file := Some (Doc (JList []))\<rparr>)"
  using assms
  by (auto simp: load_tasks_def ensure_db_exists_def
           split: if_splits option.splits content.splits json.splits)

lemma load_tasks_Inr:
  assumes "load_tasks s = (Inr tasks, s1)"
  shows "tasks = stored s" and "stored s1 = stored s"
    and "readable s1" and "writable s1 = writable s"
  using assms
  by (auto simp: load_tasks_def ensure_db_exists_def stored_def
           split: if_splits option.splits content.splits json.splits)

lemma load_tasks_stored:
  assumes "load_tasks s = (r, s1)"
  shows "stored s1 = stored s"
  using load_tasks_state [OF assms] by (auto simp: stored_def)

lemma save_tasks_Inr:
  assumes "save_tasks tasks s = (Inr u, s2)"
  shows "s2 = s\<lparr>db_file := Some (Doc (JList (map JDict tasks)))\<rparr>" and "writable s"
  using assms by (auto simp: save_tasks_def split: if_splits)

lemma save_tasks_Inl:
  assumes "save_tasks tasks s = (Inl e, s2)"
  shows "s2 = s" and "e = StorageIOFailure" and "\<not> writable s"
  using assms by (auto simp: save_tasks_def split: if_splits)

lemma cmd_add_Inr:
  assumes "cmd_add args now s = (Inr out, s')"
  shows "out = Added (next_id (stored s))"
    and "stored s' = stored s @ [new_task (next_id (stored s)) (strip (join '' '' args)) now]"
proof -
  from assms obtain tasks s1 where l: "load_tasks s = (Inr tasks, s1)"
    by (auto simp: cmd_add_def Let_def split: if_splits prod.splits sum.splits)
  note L = load_tasks_Inr [OF l]
  from assms l show "out = Added (next_id (stored s))"
    by (auto simp: cmd_add_def Let_def L(1) split: if_splits prod.splits sum.splits)
  from assms l show "stored s' = stored s @ [new_task (next_id (stored s)) (strip (join '' '' args)) now]"
    by (auto simp: cmd_add_def Let_def L(1) new_task_def dest!: save_tasks_Inr(1)
             split: if_splits prod.splits sum.splits)
qed

lemma cmd_add_Inl:
  assumes "cmd_add args now s = (Inl e, s')"
  shows "stored s' = stored s"
  using assms
  by (auto simp: cmd_add_def Let_def
           dest: load_tasks_stored save_tasks_Inl(1)
           split: if_splits prod.splits sum.splits)

lemma cmd_delete_Inr:
  assumes "cmd_delete args s = (Inr out, s')"
  shows "\<exists>i. out = Deleted i \<and> parse_id (hd args) = Inr i \<and>
             stored s' = filter (\<lambda>t. \<not> eq_int (py_get t ''id'') i) (stored s)"
proof -
  from assms obtain i where p: "parse_id (hd args) = Inr i"
    by (auto simp: cmd_delete_def Let_def split: if_splits prod.splits sum.splits)
  from assms p obtain tasks s1 where l: "load_tasks s = (Inr tasks, s1)"
    by (auto simp: cmd_delete_def Let_def split: if_splits prod.splits sum.splits)
  note L = load_tasks_Inr [OF l]
  from assms p l show ?thesis
    by (auto simp: cmd_delete_def Let_def L(1) dest!: save_tasks_Inr(1)
             split: if_splits prod.splits sum.splits)
qed

lemma cmd_delete_Inl:
  assumes "cmd_delete args s = (Inl e, s')"
  shows "stored s' = stored s"
  using assms
  by (auto simp: cmd_delete_def Let_def
           dest: load_tasks_stored save_tasks_Inl(1)
           split: if_splits prod.splits sum.splits)


lemma int_ids_filter_subset: "set (int_ids (filter P ts)) \<subseteq> set (int_ids ts)"
  by (induction ts) (auto split: option.splits)

lemma sorted_int_ids_filter:
  "sorted_wrt (<) (int_ids ts) \<Longrightarrow> sorted_wrt (<) (int_ids (filter P ts))"
proof (induction ts)
  case Nil
  then show ?case by simp
next
  case (Cons t ts)
  show ?case
  proof (cases "as_int (py_get t ''id'')")
    case None
    then show ?thesis using Cons by simp
  next
    case (Some i)
    then have tail: "sorted_wrt (<) (int_ids ts)" and hd: "\<forall>j\<in>set (int_ids ts). i < j"
      using Cons.prems by simp_all
    have "\<forall>j\<in>set (int_ids (filter P ts)). i < j"
      using hd int_ids_filter_subset [of P ts] by blast
    then show ?thesis using Some Cons.IH [OF tail] by simp
  qed
qed

lemma ids_increasing_filter: "ids_increasing ts \<Longrightarrow> ids_increasing (filter P ts)"
  by (simp add: ids_increasing_def sorted_int_ids_filter list_all_iff)

lemma int_ids_snoc_new_task:
  "int_ids (tasks @ [new_task i d ts]) = int_ids tasks @ [i]"
  by (simp add: int_ids_append new_task_def py_get_def)

lemma ids_increasing_add:
  assumes "ids_increasing ts"
  shows "ids_increasing (ts @ [new_task (next_id ts) d now])"
proof -
  have "has_int_id (new_task (next_id ts) d now)"
    by (simp add: has_int_id_def new_task_def py_get_def)
  moreover have "sorted_wrt (<) (int_ids ts @ [next_id ts])"
    using assms next_id_greater [of _ ts]
    by (auto simp: ids_increasing_def sorted_wrt_append)
  ultimately show ?thesis
    using assms by (simp add: ids_increasing_def int_ids_snoc_new_task)
qed

lemma exec_ids_increasing:
  assumes "ids_increasing (stored s)" and "exec c s = (r, s')"
  shows "ids_increasing (stored s')"
proof (cases c)
  case (Add args now)
  show ?thesis
  proof (cases r)
    case (Inl e)
    then show ?thesis using assms Add cmd_add_Inl [of args now s e s'] by simp
  next
    case (Inr out)
    then show ?thesis
      using assms Add cmd_add_Inr(2) [of args now s out s'] ids_increasing_add [of "stored s"]
      by simp
  qed
next
  case (Delete args)
  show ?thesis
  proof (cases r)
    case (Inl e)
    then show ?thesis using assms Delete cmd_delete_Inl [of args s e s'] by simp
  next
    case (Inr out)
    then show ?thesis
      using assms Delete cmd_delete_Inr [of args s out s'] ids_increasing_filter [of "stored s"]
      by auto
  qed
qed

lemma run_ids_increasing:
  "ids_increasing (stored s) \<Longrightarrow> ids_increasing (stored (snd (run cs s)))"
proof (induction cs arbitrary: s)
  case Nil
  then show ?case by simp
next
  case (Cons c cs)
  obtain r s1 where e: "exec c s = (r, s1)" by (cases "exec c s")
  have "ids_increasing (stored s1)" by (rule exec_ids_increasing [OF Cons.prems e])
  then have "ids_increasing (stored (snd (run cs s1)))" by (rule Cons.IH)
  moreover obtain rs s2 where "run cs s1 = (rs, s2)" by (cases "run cs s1")
  ultimately show ?case using e by simp
qed

lemma add_id_above:
  assumes "fst (cmd_add args now s) = Inr (Added i)"
  shows "0 < i" and "\<forall>j\<in>set (int_ids (stored s)). j < i"
proof -
  obtain s' where "cmd_add args now s = (Inr (Added i), s')"
    using assms by (cases "cmd_add args now s") simp
  then have i: "i = next_id (stored s)" using cmd_add_Inr(1) by blast
  show "0 < i" using i next_id_positive by simp
  show "\<forall>j\<in>set (int_ids (stored s)). j < i" using i next_id_greater by simp
qed

lemma run_adds_increasing:
  "list_all is_add cs \<Longrightarrow>
     sorted_wrt (<) (added_ids (fst (run cs s))) \<and>
     (\<forall>i\<in>set (added_ids (fst (run cs s))). \<forall>j\<in>set (int_ids (stored s)). j < i)"
proof (induction cs arbitrary: s)
  case Nil
  then show ?case by simp
next
  case (Cons c cs)
  from Cons.prems obtain args now where c: "c = Add args now" and rest: "list_all is_add cs"
    by (cases c) auto
  obtain r s1 where e: "cmd_add args now s = (r, s1)" by (cases "cmd_add args now s")
  obtain rs s2 where rn: "run cs s1 = (rs, s2)" by (cases "run cs s1")
  note IH = Cons.IH [OF rest, of s1]
  show ?case
  proof (cases r)
    case (Inl err)
    then have "stored s1 = stored s" using e cmd_add_Inl by blast
    then show ?thesis using IH c e rn Inl by simp
  next
    case (Inr out)
    then have out: "out = Added (next_id (stored s))"
      and st: "stored s1 = stored s @ [new_task (next_id (stored s)) (strip (join '' '' args)) now]"
      using e cmd_add_Inr by blast+
    have ids: "int_ids (stored s1) = int_ids (stored s) @ [next_id (stored s)]"
      by (simp add: st int_ids_snoc_new_task)
    have later: "\<forall>i\<in>set (added_ids rs). next_id (stored s) < i"
      using IH rn ids by simp
    have low: "\<forall>j\<in>set (int_ids (stored s)). j < next_id (stored s)"
      using next_id_greater by blast
    have "\<forall>i\<in>set (added_ids rs). \<forall>j\<in>set (int_ids (stored s)). j < i"
      using IH rn ids by simp
    then show ?thesis using IH c e rn Inr out later low by simp
  qed
qed


lemma next_id_empty: "int_ids tasks = [] \<Longrightarrow> next_id tasks = 1"
  by (simp add: next_id_Max)

lemma next_id_Max_nonneg:
  assumes "i \<in> set (int_ids tasks)" and "0 \<le> i"
  shows "next_id tasks = 1 + Max (set (int_ids tasks))"
proof -
  have ne: "set (int_ids tasks) \<noteq> {}" using assms by auto
  have "i \<le> Max (set (int_ids tasks))"
    by (rule Max_ge) (use assms in simp_all)
  then have "0 \<le> Max (set (int_ids tasks))"
    using assms(2) by (rule order_trans [rotated])
  then have "Max (insert 0 (set (int_ids tasks))) = Max (set (int_ids tasks))"
    using ne by (simp add: max_def)
  then show ?thesis by (simp add: next_id_Max)
qed

subsection \<open>Loading keeps the dictionaries\<close>

lemma map_JDict_dicts: "map JDict (dicts data) = filter is_dict data"
  by (induction data rule: dicts.induct) auto

lemma filter_is_dict_all: "list_all is_dict data \<Longrightarrow> filter is_dict data = data"
  by (induction data) auto

lemma load_tasks_list:
  assumes "readable s" and "db_file s = Some (Doc (JList data))"
  shows "load_tasks s = (Inr (dicts data), s)"
  using assms by (simp add: load_tasks_def ensure_db_exists_def)

lemma load_tasks_malformed:
  assumes "readable s" and "db_file s = Some Malformed"
  shows "load_tasks s = (Inl StorageUnreadable, s)"
  using assms by (simp add: load_tasks_def ensure_db_exists_def)

lemma load_tasks_not_list:
  assumes "readable s" and "db_file s = Some (Doc v)" and "\<not> is_list v"
  shows "load_tasks s = (Inl StorageUnreadable, s)"
  using assms by (cases v) (simp_all add: load_tasks_def ensure_db_exists_def)

subsection \<open>Removing the tasks with an id\<close>

lemma filter_not_length:
  "length (filter (\<lambda>x. \<not> P x) xs) = length xs - length (filter P xs)"
  using sum_length_filter_compl [of P xs] by simp

lemma filter_not_same_length:
  "(length (filter (\<lambda>x. \<not> P x) xs) = length xs) = (\<forall>x\<in>set xs. \<not> P x)"
proof
  assume "length (filter (\<lambda>x. \<not> P x) xs) = length xs"
  then have "length (filter P xs) = 0"
    using sum_length_filter_compl [of P xs] by simp
  then show "\<forall>x\<in>set xs. \<not> P x" by (simp add: filter_empty_conv)
next
  assume "\<forall>x\<in>set xs. \<not> P x"
  then show "length (filter (\<lambda>x. \<not> P x) xs) = length xs" by simp
qed

lemma filter_single_split:
  "length (filter P xs) = 1 \<Longrightarrow>
     \<exists>ys x zs. xs = ys @ x # zs \<and> P x \<and> filter (\<lambda>x. \<not> P x) xs = ys @ zs"
proof (induction xs)
  case Nil
  then show ?case by simp
next
  case (Cons a xs)
  show ?case
  proof (cases "P a")
    case True
    then have "filter P xs = []" using Cons.prems by simp
    then have "\<forall>x\<in>set xs. \<not> P x" by (simp add: filter_empty_conv)
    then have "filter (\<lambda>x. \<not> P x) xs = xs" by simp
    then have "a # xs = [] @ a # xs \<and> P a \<and> filter (\<lambda>x. \<not> P x) (a # xs) = [] @ xs"
      using True by simp
    then show ?thesis by blast
  next
    case False
    then have "length (filter P xs) = 1" using Cons.prems by simp
    then obtain ys x zs where "xs = ys @ x # zs" "P x" "filter (\<lambda>x. \<not> P x) xs = ys @ zs"
      using Cons.IH by blast
    then have "a # xs = (a # ys) @ x # zs \<and> P x \<and> filter (\<lambda>x. \<not> P x) (a # xs) = (a # ys) @ zs"
      using False by simp
    then show ?thesis by blast
  qed
qed

lemma has_id_as_int:
  "has_int_id t \<Longrightarrow> has_id i t = (as_int (py_get t ''id'') = Some i)"
  by (cases "py_get t ''id''") (auto simp: has_int_id_def has_id_def)

lemma has_id_int_ids:
  "has_int_id t \<Longrightarrow> has_id i t \<Longrightarrow> t \<in> set ts \<Longrightarrow> i \<in> set (int_ids ts)"
proof (induction ts)
  case Nil
  then show ?case by simp
next
  case (Cons a ts)
  then show ?case by (auto simp: has_id_as_int split: option.splits)
qed

lemma unique_ids_at_most_one:
  "unique_ids ts \<Longrightarrow> length (filter (has_id i) ts) \<le> 1"
proof (induction ts)
  case Nil
  then show ?case by simp
next
  case (Cons a ts)
  from Cons.prems obtain j where j: "as_int (py_get a ''id'') = Some j"
    and a: "has_int_id a"
    by (auto simp: unique_ids_def has_int_id_def)
  from Cons.prems j have tail: "unique_ids ts" and fresh: "j \<notin> set (int_ids ts)"
    by (auto simp: unique_ids_def)
  show ?case
  proof (cases "has_id i a")
    case True
    then have "j = i" using a j by (simp add: has_id_as_int)
    have "\<forall>t\<in>set ts. \<not> has_id i t"
    proof
      fix t assume t: "t \<in> set ts"
      show "\<not> has_id i t"
      proof
        assume "has_id i t"
        moreover have "has_int_id t" using tail t by (simp add: unique_ids_def list_all_iff)
        ultimately have "i \<in> set (int_ids ts)" using t has_id_int_ids by blast
        then show False using fresh \<open>j = i\<close> by simp
      qed
    qed
    then have "filter (has_id i) ts = []" by (simp add: filter_empty_conv)
    then show ?thesis using True by simp
  next
    case False
    then show ?thesis using Cons.IH [OF tail] by simp
  qed
qed

lemma unique_ids_exactly_one:
  assumes "unique_ids ts" and "\<exists>t\<in>set ts. has_id i t"
  shows "length (filter (has_id i) ts) = 1"
proof -
  have "filter (has_id i) ts \<noteq> []" using assms(2) by (simp add: filter_empty_conv)
  then have "1 \<le> length (filter (has_id i) ts)"
    by (cases "filter (has_id i) ts") simp_all
  then show ?thesis using unique_ids_at_most_one [OF assms(1), of i] by simp
qed

lemma sorted_less_distinct: "sorted_wrt (<) (xs :: int list) \<Longrightarrow> distinct xs"
  by (induction xs) auto

lemma ids_increasing_unique: "ids_increasing ts \<Longrightarrow> unique_ids ts"
  by (simp add: ids_increasing_def unique_ids_def sorted_less_distinct)

lemma distinct_int_ids_filter: "distinct (int_ids ts) \<Longrightarrow> distinct (int_ids (filter P ts))"
proof (induction ts)
  case Nil
  then show ?case by simp
next
  case (Cons t ts)
  show ?case
  proof (cases "as_int (py_get t ''id'')")
    case None
    then show ?thesis using Cons by simp
  next
    case (Some j)
    then have "j \<notin> set (int_ids ts)" and tail: "distinct (int_ids ts)"
      using Cons.prems by simp_all
    then have "j \<notin> set (int_ids (filter P ts))"
      using int_ids_filter_subset [of P ts] by blast
    then show ?thesis using Some Cons.IH [OF tail] by simp
  qed
qed

lemma unique_ids_filter: "unique_ids ts \<Longrightarrow> unique_ids (filter P ts)"
  by (simp add: unique_ids_def distinct_int_ids_filter list_all_iff)

lemma run_unique_ids:
  assumes "db_file s0 = None \<or> db_file s0 = Some (Doc (JList []))"
  shows "unique_ids (stored (snd (run cs s0)))"
proof -
  have "stored s0 = []" using assms by (auto simp: stored_def)
  then have "ids_increasing (stored s0)" by (simp add: ids_increasing_def)
  then have "ids_increasing (stored (snd (run cs s0)))" by (rule run_ids_increasing)
  then show ?thesis by (rule ids_increasing_unique)
qed

lemma cmd_delete_found:
  assumes "length args = 1" and "parse_id (hd args) = Inr i"
    and "load_tasks s = (Inr tasks, s1)" and "\<exists>t\<in>set tasks. has_id i t" and "writable s1"
  shows "cmd_delete args s =
           (Inr (Deleted i),
            s1\<lparr>db_file := Some (Doc (JList (map JDict (filter (\<lambda>t. \<not> has_id i t) tasks))))\<rparr>)"
proof -
  have "length (filter (\<lambda>t. \<not> has_id i t) tasks) \<noteq> length tasks"
    using assms(4) by (simp add: filter_not_same_length)
  then show ?thesis
    using assms(1,2,3,5)
    by (simp add: cmd_delete_def Let_def save_tasks_def has_id_def)
qed

subsection \<open>Finding a task and replacing it\<close>

lemma map_of_dict_set: "map_of (dict_set t k v) k' = (if k' = k then Some v else map_of t k')"
  by (induction t) auto

lemma py_get_dict_set: "py_get (dict_set t k v) k' = (if k' = k then v else py_get t k')"
  by (simp add: py_get_def map_of_dict_set)

lemma has_id_not_empty: "has_id i t \<Longrightarrow> t \<noteq> []"
  by (auto simp: has_id_def py_get_def)

lemma find_task_None: "(find_task tasks i = None) = (\<forall>t\<in>set tasks. \<not> has_id i t)"
  by (induction tasks) (auto simp: has_id_def)

lemma find_task_Some:
  "find_task tasks i = Some k \<Longrightarrow>
     k < length tasks \<and> has_id i (tasks ! k) \<and> (\<forall>j<k. \<not> has_id i (tasks ! j))"
proof (induction tasks arbitrary: k)
  case Nil
  then show ?case by simp
next
  case (Cons t ts)
  show ?case
  proof (cases "has_id i t")
    case True
    then show ?thesis using Cons.prems by (simp add: has_id_def)
  next
    case False
    then obtain k' where k: "find_task ts i = Some k'" "k = Suc k'"
      using Cons.prems by (auto simp: has_id_def)
    have "\<forall>j<Suc k'. \<not> has_id i ((t # ts) ! j)"
      using Cons.IH [OF k(1)] False by (auto simp: less_Suc_eq_0_disj)
    then show ?thesis using Cons.IH [OF k(1)] k(2) by simp
  qed
qed

lemma find_task_first:
  "k < length tasks \<Longrightarrow> has_id i (tasks ! k) \<Longrightarrow> \<forall>j<k. \<not> has_id i (tasks ! j) \<Longrightarrow>
     find_task tasks i = Some k"
proof (induction tasks arbitrary: k)
  case Nil
  then show ?case by simp
next
  case (Cons t ts)
  show ?case
  proof (cases k)
    case 0
    then show ?thesis using Cons.prems by (simp add: has_id_def)
  next
    case (Suc k')
    have "\<not> has_id i t" using Cons.prems(3) Suc by auto
    moreover have "find_task ts i = Some k'"
    proof (rule Cons.IH)
      show "k' < length ts" using Cons.prems(1) Suc by simp
      show "has_id i (ts ! k')" using Cons.prems(2) Suc by simp
      show "\<forall>j<k'. \<not> has_id i (ts ! j)"
      proof (intro allI impI)
        fix j assume "j < k'"
        then have "Suc j < k" using Suc by simp
        then have "\<not> has_id i ((t # ts) ! Suc j)" using Cons.prems(3) by blast
        then show "\<not> has_id i (ts ! j)" by simp
      qed
    qed
    ultimately show ?thesis using Suc by (simp add: has_id_def)
  qed
qed

lemma cmd_update_found:
  assumes "2 \<le> length args" and "parse_id (hd args) = Inr i"
    and "strip (join '' '' (tl args)) \<noteq> []"
    and "load_tasks s = (Inr tasks, s1)" and "writable s1"
    and "find_task tasks i = Some k"
  shows "cmd_update args now s =
           (Inr (Updated i),
            s1\<lparr>db_file := Some (Doc (JList (map JDict
                 (tasks[k := dict_set (dict_set (tasks ! k) ''description''
                                          (JStr (strip (join '' '' (tl args)))))
                                ''updatedAt'' (JStr now)]))))\<rparr>)"
proof -
  have "tasks ! k \<noteq> []" using find_task_Some [OF assms(6)] has_id_not_empty by blast
  then show ?thesis
    using assms by (simp add: cmd_update_def Let_def save_tasks_def)
qed

lemma cmd_mark_in_progress_found:
  assumes "length args = 1" and "parse_id (hd args) = Inr i"
    and "load_tasks s = (Inr tasks, s1)" and "writable s1"
    and "find_task tasks i = Some k"
  shows "cmd_mark_in_progress args now s =
           (Inr (Marked i ''in-progress''),
            s1\<lparr>db_file := Some (Doc (JList (map JDict
                 (tasks[k := set_status (tasks ! k) ''in-progress'' now]))))\<rparr>)"
proof -
  have "tasks ! k \<noteq> []" using find_task_Some [OF assms(5)] has_id_not_empty by blast
  then show ?thesis
    using assms by (simp add: cmd_mark_in_progress_def Let_def save_tasks_def)
qed

lemma cmd_mark_done_found:
  assumes "length args = 1" and "parse_id (hd args) = Inr i"
    and "load_tasks s = (Inr tasks, s1)" and "writable s1"
    and "find_task tasks i = Some k"
  shows "cmd_mark_done args now s =
           (Inr (Marked i ''done''),
            s1\<lparr>db_file := Some (Doc (JList (map JDict
                 (tasks[k := set_status (tasks ! k) ''done'' now]))))\<rparr>)"
proof -
  have "tasks ! k \<noteq> []" using find_task_Some [OF assms(5)] has_id_not_empty by blast
  then show ?thesis
    using assms by (simp add: cmd_mark_done_def Let_def save_tasks_def)
qed

text \<open>What replacing the task at position \<open>k\<close> leaves as it was.\<close>

lemma replaced_frame:
  assumes "k < length tasks"
  shows "length (tasks[k := t']) = length tasks"
    and "\<forall>j<length tasks. j \<noteq> k \<longrightarrow> tasks[k := t'] ! j = tasks ! j"
    and "tasks[k := t'] ! k = t'"
  using assms by simp_all

lemma set_status_fields:
  "py_get (set_status t status now) ''status'' = JStr status"
  "py_get (set_status t status now) ''updatedAt'' = JStr now"
  "key \<noteq> ''status'' \<Longrightarrow> key \<noteq> ''updatedAt'' \<Longrightarrow>
     map_of (set_status t status now) key = map_of t key"
  by (simp_all add: set_status_def py_get_dict_set map_of_dict_set)


lemma replacement_frame:
  assumes "k < length tasks" and "stored s' = tasks[k := t']"
    and "py_get t' f = v" and "py_get t' ''updatedAt'' = JStr now"
    and "\<forall>key. key \<noteq> f \<and> key \<noteq> ''updatedAt'' \<longrightarrow> map_of t' key = map_of (tasks ! k) key"
  shows "length (stored s') = length tasks \<and>
         (\<forall>j<length tasks. j \<noteq> k \<longrightarrow> stored s' ! j = tasks ! j) \<and>
         py_get (stored s' ! k) f = v \<and>
         py_get (stored s' ! k) ''updatedAt'' = JStr now \<and>
         (\<forall>key. key \<noteq> f \<and> key \<noteq> ''updatedAt'' \<longrightarrow>
            map_of (stored s' ! k) key = map_of (tasks ! k) key)"
  using assms by simp

lemma cmd_update_frame:
  assumes "load_tasks s = (Inr tasks, s1)" and "writable s1"
    and "k < length tasks" and "has_id i (tasks ! k)" and "\<forall>j<k. \<not> has_id i (tasks ! j)"
    and "2 \<le> length args" and "parse_id (hd args) = Inr i"
    and "strip (join '' '' (tl args)) \<noteq> []"
  shows "fst (cmd_update args now s) = Inr (Updated i) \<and>
         length (stored (snd (cmd_update args now s))) = length tasks \<and>
         (\<forall>j<length tasks. j \<noteq> k \<longrightarrow> stored (snd (cmd_update args now s)) ! j = tasks ! j) \<and>
         py_get (stored (snd (cmd_update args now s)) ! k) ''description''
           = JStr (strip (join '' '' (tl args))) \<and>
         py_get (stored (snd (cmd_update args now s)) ! k) ''updatedAt'' = JStr now \<and>
         (\<forall>key. key \<noteq> ''description'' \<and> key \<noteq> ''updatedAt'' \<longrightarrow>
            map_of (stored (snd (cmd_update args now s)) ! k) key = map_of (tasks ! k) key)"
proof -
  have f: "find_task tasks i = Some k" using assms(3,4,5) by (rule find_task_first)
  note run = cmd_update_found [OF assms(6,7,8,1,2) f, of now]
  have r: "fst (cmd_update args now s) = Inr (Updated i)" by (simp add: run)
  have st: "stored (snd (cmd_update args now s)) =
          tasks[k := dict_set (dict_set (tasks ! k) ''description''
                                  (JStr (strip (join '' '' (tl args)))))
                        ''updatedAt'' (JStr now)]"
    by (simp add: run)
  show ?thesis
    using r replacement_frame [OF assms(3) st, of "''description''" _ now]
    by (simp add: py_get_dict_set map_of_dict_set)
qed

lemma cmd_mark_in_progress_frame:
  assumes "load_tasks s = (Inr tasks, s1)" and "writable s1"
    and "k < length tasks" and "has_id i (tasks ! k)" and "\<forall>j<k. \<not> has_id i (tasks ! j)"
    and "length args = 1" and "parse_id (hd args) = Inr i"
  shows "fst (cmd_mark_in_progress args now s) = Inr (Marked i ''in-progress'') \<and>
         length (stored (snd (cmd_mark_in_progress args now s))) = length tasks \<and>
         (\<forall>j<length tasks. j \<noteq> k \<longrightarrow>
            stored (snd (cmd_mark_in_progress args now s)) ! j = tasks ! j) \<and>
         py_get (stored (snd (cmd_mark_in_progress args now s)) ! k) ''status''
           = JStr ''in-progress'' \<and>
         py_get (stored (snd (cmd_mark_in_progress args now s)) ! k) ''updatedAt'' = JStr now \<and>
         (\<forall>key. key \<noteq> ''status'' \<and> key \<noteq> ''updatedAt'' \<longrightarrow>
            map_of (stored (snd (cmd_mark_in_progress args now s)) ! k) key
              = map_of (tasks ! k) key)"
proof -
  have f: "find_task tasks i = Some k" using assms(3,4,5) by (rule find_task_first)
  note run = cmd_mark_in_progress_found [OF assms(6,7,1,2) f, of now]
  have r: "fst (cmd_mark_in_progress args now s) = Inr (Marked i ''in-progress'')"
    by (simp add: run)
  have st: "stored (snd (cmd_mark_in_progress args now s)) =
          tasks[k := set_status (tasks ! k) ''in-progress'' now]"
    by (simp add: run)
  show ?thesis
    using r replacement_frame [OF assms(3) st, of "''status''" _ now]
    by (simp add: set_status_fields)
qed

lemma cmd_mark_done_frame:
  assumes "load_tasks s = (Inr tasks, s1)" and "writable s1"
    and "k < length tasks" and "has_id i (tasks ! k)" and "\<forall>j<k. \<not> has_id i (tasks ! j)"
    and "length args = 1" and "parse_id (hd args) = Inr i"
  shows "fst (cmd_mark_done args now s) = Inr (Marked i ''done'') \<and>
         length (stored (snd (cmd_mark_done args now s))) = length tasks \<and>
         (\<forall>j<length tasks. j \<noteq> k \<longrightarrow>
            stored (snd (cmd_mark_done args now s)) ! j = tasks ! j) \<and>
         py_get (stored (snd (cmd_mark_done args now s)) ! k) ''status'' = JStr ''done'' \<and>
         py_get (stored (snd (cmd_mark_done args now s)) ! k) ''updatedAt'' = JStr now \<and>
         (\<forall>key. key \<noteq> ''status'' \<and> key \<noteq> ''updatedAt'' \<longrightarrow>
            map_of (stored (snd (cmd_mark_done args now s)) ! k) key = map_of (tasks ! k) key)"
proof -
  have f: "find_task tasks i = Some k" using assms(3,4,5) by (rule find_task_first)
  note run = cmd_mark_done_found [OF assms(6,7,1,2) f, of now]
  have r: "fst (cmd_mark_done args now s) = Inr (Marked i ''done'')"
    by (simp add: run)
  have st: "stored (snd (cmd_mark_done args now s)) =
          tasks[k := set_status (tasks ! k) ''done'' now]"
    by (simp add: run)
  show ?thesis
    using r replacement_frame [OF assms(3) st, of "''status''" _ now]
    by (simp add: set_status_fields)
qed

lemma done_fs_facts:
  "load_tasks done_fs = (Inr [task_todo, task_done], done_fs)"
  "writable done_fs"
  "(1::nat) < length [task_todo, task_done]"
  "has_id 2 ([task_todo, task_done] ! 1)"
  "\<forall>j<1. \<not> has_id 2 ([task_todo, task_done] ! j)"
  by (simp_all add: load_tasks_def ensure_db_exists_def done_fs_def has_id_def py_get_def
        task_todo_def task_done_def)

subsection \<open>Which failure a command ends with\<close>

lemma parse_id_Inr: "(parse_id tok = Inr i) = (py_int tok = Some i \<and> 0 < i)"
  by (auto simp: parse_id_def split: option.splits)

lemma parse_id_Inl: "(parse_id tok = Inl e) = (e = InvalidId \<and> \<not> valid_id_token tok)"
  by (auto simp: parse_id_def valid_id_token_def split: option.splits)

lemma parse_id_valid: "valid_id_token tok = (\<exists>i. parse_id tok = Inr i)"
  by (auto simp: parse_id_def valid_id_token_def split: option.splits)

lemma load_tasks_Inl:
  assumes "load_tasks s = (Inl e, s1)"
  shows "e = StorageIOFailure \<or> e = StorageUnreadable"
  using assms
  by (auto simp: load_tasks_def ensure_db_exists_def
           split: if_splits option.splits content.splits json.splits)

lemma save_tasks_fst: "fst (save_tasks tasks s) = Inr () \<or> fst (save_tasks tasks s) = Inl StorageIOFailure"
  by (simp add: save_tasks_def)

lemma cmd_add_EmptyInput:
  assumes "args \<noteq> []"
  shows "(fst (cmd_add args now s) = Inl EmptyInput) = (strip (join '' '' args) = [])"
proof (cases "strip (join '' '' args) = []")
  case True
  then show ?thesis using assms by (simp add: cmd_add_def)
next
  case False
  obtain r s1 where l: "load_tasks s = (r, s1)" by (cases "load_tasks s")
  show ?thesis
  proof (cases r)
    case (Inl e)
    then have "e \<noteq> EmptyInput" using l load_tasks_Inl by blast
    then show ?thesis using assms False l Inl by (simp add: cmd_add_def)
  next
    case (Inr tasks)
    then show ?thesis
      using assms False l by (simp add: cmd_add_def Let_def save_tasks_def)
  qed
qed

text \<open>The failures of \<^verbatim>\<open>cmd_update\<close>, in the order of its tests.\<close>

lemma cmd_update_invalid:
  assumes "2 \<le> length args" and "\<not> valid_id_token (hd args)"
  shows "cmd_update args now s = (Inl InvalidId, s)"
proof -
  have "parse_id (hd args) = Inl InvalidId" using assms(2) by (simp add: parse_id_Inl)
  then show ?thesis using assms(1) by (simp add: cmd_update_def)
qed

lemma cmd_update_empty:
  assumes "2 \<le> length args" and "parse_id (hd args) = Inr i"
    and "strip (join '' '' (tl args)) = []"
  shows "cmd_update args now s = (Inl EmptyInput, s)"
  using assms by (simp add: cmd_update_def)

lemma cmd_update_load_fails:
  assumes "2 \<le> length args" and "parse_id (hd args) = Inr i"
    and "strip (join '' '' (tl args)) \<noteq> []" and "load_tasks s = (Inl e, s1)"
  shows "cmd_update args now s = (Inl e, s1)"
  using assms by (simp add: cmd_update_def)

lemma cmd_update_missing:
  assumes "2 \<le> length args" and "parse_id (hd args) = Inr i"
    and "strip (join '' '' (tl args)) \<noteq> []" and "load_tasks s = (Inr tasks, s1)"
    and "\<forall>t\<in>set tasks. \<not> has_id i t"
  shows "cmd_update args now s = (Inl NotFound, s1)"
proof -
  have "find_task tasks i = None" using assms(5) by (simp add: find_task_None)
  then show ?thesis using assms(1-4) by (simp add: cmd_update_def)
qed

lemma cmd_update_present:
  assumes "2 \<le> length args" and "parse_id (hd args) = Inr i"
    and "strip (join '' '' (tl args)) \<noteq> []" and "load_tasks s = (Inr tasks, s1)"
    and "\<exists>t\<in>set tasks. has_id i t"
  shows "fst (cmd_update args now s) = Inr (Updated i) \<or>
         fst (cmd_update args now s) = Inl StorageIOFailure"
proof -
  obtain k where k: "find_task tasks i = Some k"
    using assms(5) find_task_None [of tasks i] by (cases "find_task tasks i") auto
  have "tasks ! k \<noteq> []" using find_task_Some [OF k] has_id_not_empty by blast
  then show ?thesis
    using assms(1-4) k by (simp add: cmd_update_def Let_def save_tasks_def)
qed

lemma cmd_update_InvalidId:
  assumes "2 \<le> length args"
  shows "(fst (cmd_update args now s) = Inl InvalidId) = (\<not> valid_id_token (hd args))"
proof (cases "valid_id_token (hd args)")
  case False
  then show ?thesis using cmd_update_invalid [OF assms] by simp
next
  case True
  then obtain i where p: "parse_id (hd args) = Inr i" by (auto simp: parse_id_valid)
  show ?thesis
  proof (cases "strip (join '' '' (tl args)) = []")
    case True
    then show ?thesis using cmd_update_empty [OF assms p] \<open>valid_id_token (hd args)\<close> by simp
  next
    case False
    obtain r s1 where l: "load_tasks s = (r, s1)" by (cases "load_tasks s")
    show ?thesis
    proof (cases r)
      case (Inl e)
      then have "e \<noteq> InvalidId" using l load_tasks_Inl by blast
      then show ?thesis
        using cmd_update_load_fails [OF assms p False] l Inl \<open>valid_id_token (hd args)\<close> by simp
    next
      case (Inr tasks)
      show ?thesis
      proof (cases "\<exists>t\<in>set tasks. has_id i t")
        case True
        then show ?thesis
          using cmd_update_present [OF assms p False, of s tasks s1 now] l Inr
            \<open>valid_id_token (hd args)\<close> by auto
      next
        case False
        then show ?thesis
          using cmd_update_missing [OF assms p \<open>strip (join '' '' (tl args)) \<noteq> []\<close>, of s tasks s1 now]
            l Inr \<open>valid_id_token (hd args)\<close> by auto
      qed
    qed
  qed
qed

lemma cmd_update_EmptyInput:
  assumes "2 \<le> length args"
  shows "(fst (cmd_update args now s) = Inl EmptyInput) =
           (valid_id_token (hd args) \<and> strip (join '' '' (tl args)) = [])"
proof (cases "valid_id_token (hd args)")
  case False
  then show ?thesis using cmd_update_invalid [OF assms] by simp
next
  case True
  then obtain i where p: "parse_id (hd args) = Inr i" by (auto simp: parse_id_valid)
  show ?thesis
  proof (cases "strip (join '' '' (tl args)) = []")
    case True
    then show ?thesis using cmd_update_empty [OF assms p] \<open>valid_id_token (hd args)\<close> by simp
  next
    case False
    obtain r s1 where l: "load_tasks s = (r, s1)" by (cases "load_tasks s")
    show ?thesis
    proof (cases r)
      case (Inl e)
      then have "e \<noteq> EmptyInput" using l load_tasks_Inl by blast
      then show ?thesis
        using cmd_update_load_fails [OF assms p False] l Inl False by simp
    next
      case (Inr tasks)
      show ?thesis
      proof (cases "\<exists>t\<in>set tasks. has_id i t")
        case True
        then show ?thesis
          using cmd_update_present [OF assms p False, of s tasks s1 now] l Inr False by auto
      next
        case no: False
        then show ?thesis
          using cmd_update_missing [OF assms p False, of s tasks s1 now] l Inr False by auto
      qed
    qed
  qed
qed

lemma cmd_update_NotFound:
  assumes "2 \<le> length args" and "parse_id (hd args) = Inr i"
    and "strip (join '' '' (tl args)) \<noteq> []" and "load_tasks s = (Inr tasks, s1)"
  shows "(fst (cmd_update args now s) = Inl NotFound) = (\<forall>t\<in>set tasks. \<not> has_id i t)"
proof (cases "\<exists>t\<in>set tasks. has_id i t")
  case True
  then show ?thesis using cmd_update_present [OF assms, of now] by auto
next
  case False
  then show ?thesis using cmd_update_missing [OF assms, of now] by auto
qed


text \<open>The failures of \<^verbatim>\<open>cmd_delete\<close>, in the order of its tests.\<close>

lemma cmd_delete_invalid:
  assumes "length args = 1" and "\<not> valid_id_token (hd args)"
  shows "cmd_delete args s = (Inl InvalidId, s)"
proof -
  have "parse_id (hd args) = Inl InvalidId" using assms(2) by (simp add: parse_id_Inl)
  then show ?thesis using assms(1) by (simp add: cmd_delete_def)
qed

lemma cmd_delete_load_fails:
  assumes "length args = 1" and "parse_id (hd args) = Inr i" and "load_tasks s = (Inl e, s1)"
  shows "cmd_delete args s = (Inl e, s1)"
  using assms by (simp add: cmd_delete_def)

lemma cmd_delete_missing:
  assumes "length args = 1" and "parse_id (hd args) = Inr i"
    and "load_tasks s = (Inr tasks, s1)" and "\<forall>t\<in>set tasks. \<not> has_id i t"
  shows "cmd_delete args s = (Inl NotFound, s1)"
proof -
  have "length (filter (\<lambda>t. \<not> has_id i t) tasks) = length tasks"
    using assms(4) by (simp add: filter_not_same_length)
  then show ?thesis
    using assms(1-3) by (simp add: cmd_delete_def Let_def has_id_def)
qed

lemma cmd_delete_present:
  assumes "length args = 1" and "parse_id (hd args) = Inr i"
    and "load_tasks s = (Inr tasks, s1)" and "\<exists>t\<in>set tasks. has_id i t"
  shows "fst (cmd_delete args s) = Inr (Deleted i) \<or>
         fst (cmd_delete args s) = Inl StorageIOFailure"
proof -
  have "length (filter (\<lambda>t. \<not> has_id i t) tasks) \<noteq> length tasks"
    using assms(4) by (simp add: filter_not_same_length)
  then show ?thesis
    using assms(1-3) by (simp add: cmd_delete_def Let_def has_id_def save_tasks_def)
qed

lemma cmd_delete_InvalidId:
  assumes "length args = 1"
  shows "(fst (cmd_delete args s) = Inl InvalidId) = (\<not> valid_id_token (hd args))"
proof (cases "valid_id_token (hd args)")
  case False
  then show ?thesis using cmd_delete_invalid [OF assms] by simp
next
  case True
  then obtain i where p: "parse_id (hd args) = Inr i" by (auto simp: parse_id_valid)
  obtain r s1 where l: "load_tasks s = (r, s1)" by (cases "load_tasks s")
  show ?thesis
  proof (cases r)
    case (Inl e)
    then have "e \<noteq> InvalidId" using l load_tasks_Inl by blast
    then show ?thesis using cmd_delete_load_fails [OF assms p] l Inl True by simp
  next
    case (Inr tasks)
    show ?thesis
    proof (cases "\<exists>t\<in>set tasks. has_id i t")
      case yes: True
      then show ?thesis
        using cmd_delete_present [OF assms p, of s tasks s1] l Inr True by auto
    next
      case False
      then show ?thesis
        using cmd_delete_missing [OF assms p, of s tasks s1] l Inr True by auto
    qed
  qed
qed

lemma cmd_delete_NotFound:
  assumes "length args = 1" and "parse_id (hd args) = Inr i" and "load_tasks s = (Inr tasks, s1)"
  shows "(fst (cmd_delete args s) = Inl NotFound) = (\<forall>t\<in>set tasks. \<not> has_id i t)"
proof (cases "\<exists>t\<in>set tasks. has_id i t")
  case True
  then show ?thesis using cmd_delete_present [OF assms] by auto
next
  case False
  then show ?thesis using cmd_delete_missing [OF assms] by auto
qed

text \<open>The failures of \<^verbatim>\<open>cmd_mark_in_progress\<close>, in the order of its tests.\<close>

lemma cmd_mark_in_progress_invalid:
  assumes "length args = 1" and "\<not> valid_id_token (hd args)"
  shows "cmd_mark_in_progress args now s = (Inl InvalidId, s)"
proof -
  have "parse_id (hd args) = Inl InvalidId" using assms(2) by (simp add: parse_id_Inl)
  then show ?thesis using assms(1) by (simp add: cmd_mark_in_progress_def)
qed

lemma cmd_mark_in_progress_load_fails:
  assumes "length args = 1" and "parse_id (hd args) = Inr i" and "load_tasks s = (Inl e, s1)"
  shows "cmd_mark_in_progress args now s = (Inl e, s1)"
  using assms by (simp add: cmd_mark_in_progress_def)

lemma cmd_mark_in_progress_missing:
  assumes "length args = 1" and "parse_id (hd args) = Inr i"
    and "load_tasks s = (Inr tasks, s1)" and "\<forall>t\<in>set tasks. \<not> has_id i t"
  shows "cmd_mark_in_progress args now s = (Inl NotFound, s1)"
proof -
  have "find_task tasks i = None" using assms(4) by (simp add: find_task_None)
  then show ?thesis using assms(1-3) by (simp add: cmd_mark_in_progress_def)
qed

lemma cmd_mark_in_progress_present:
  assumes "length args = 1" and "parse_id (hd args) = Inr i"
    and "load_tasks s = (Inr tasks, s1)" and "\<exists>t\<in>set tasks. has_id i t"
  shows "fst (cmd_mark_in_progress args now s) = Inr (Marked i ''in-progress'') \<or>
         fst (cmd_mark_in_progress args now s) = Inl StorageIOFailure"
proof -
  obtain k where k: "find_task tasks i = Some k"
    using assms(4) find_task_None [of tasks i] by (cases "find_task tasks i") auto
  have "tasks ! k \<noteq> []" using find_task_Some [OF k] has_id_not_empty by blast
  then show ?thesis
    using assms(1-3) k by (simp add: cmd_mark_in_progress_def save_tasks_def)
qed

lemma cmd_mark_in_progress_InvalidId:
  assumes "length args = 1"
  shows "(fst (cmd_mark_in_progress args now s) = Inl InvalidId) = (\<not> valid_id_token (hd args))"
proof (cases "valid_id_token (hd args)")
  case False
  then show ?thesis using cmd_mark_in_progress_invalid [OF assms] by simp
next
  case True
  then obtain i where p: "parse_id (hd args) = Inr i" by (auto simp: parse_id_valid)
  obtain r s1 where l: "load_tasks s = (r, s1)" by (cases "load_tasks s")
  show ?thesis
  proof (cases r)
    case (Inl e)
    then have "e \<noteq> InvalidId" using l load_tasks_Inl by blast
    then show ?thesis using cmd_mark_in_progress_load_fails [OF assms p] l Inl True by simp
  next
    case (Inr tasks)
    show ?thesis
    proof (cases "\<exists>t\<in>set tasks. has_id i t")
      case yes: True
      then show ?thesis
        using cmd_mark_in_progress_present [OF assms p, of s tasks s1 now] l Inr True by auto
    next
      case False
      then show ?thesis
        using cmd_mark_in_progress_missing [OF assms p, of s tasks s1 now] l Inr True by auto
    qed
  qed
qed

lemma cmd_mark_in_progress_NotFound:
  assumes "length args = 1" and "parse_id (hd args) = Inr i" and "load_tasks s = (Inr tasks, s1)"
  shows "(fst (cmd_mark_in_progress args now s) = Inl NotFound) = (\<forall>t\<in>set tasks. \<not> has_id i t)"
proof (cases "\<exists>t\<in>set tasks. has_id i t")
  case True
  then show ?thesis using cmd_mark_in_progress_present [OF assms, of now] by auto
next
  case False
  then show ?thesis using cmd_mark_in_progress_missing [OF assms, of now] by auto
qed

text \<open>The failures of \<^verbatim>\<open>cmd_mark_done\<close>, in the order of its tests.\<close>

lemma cmd_mark_done_invalid:
  assumes "length args = 1" and "\<not> valid_id_token (hd args)"
  shows "cmd_mark_done args now s = (Inl InvalidId, s)"
proof -
  have "parse_id (hd args) = Inl InvalidId" using assms(2) by (simp add: parse_id_Inl)
  then show ?thesis using assms(1) by (simp add: cmd_mark_done_def)
qed

lemma cmd_mark_done_load_fails:
  assumes "length args = 1" and "parse_id (hd args) = Inr i" and "load_tasks s = (Inl e, s1)"
  shows "cmd_mark_done args now s = (Inl e, s1)"
  using assms by (simp add: cmd_mark_done_def)

lemma cmd_mark_done_missing:
  assumes "length args = 1" and "parse_id (hd args) = Inr i"
    and "load_tasks s = (Inr tasks, s1)" and "\<forall>t\<in>set tasks. \<not> has_id i t"
  shows "cmd_mark_done args now s = (Inl NotFound, s1)"
proof -
  have "find_task tasks i = None" using assms(4) by (simp add: find_task_None)
  then show ?thesis using assms(1-3) by (simp add: cmd_mark_done_def)
qed

lemma cmd_mark_done_present:
  assumes "length args = 1" and "parse_id (hd args) = Inr i"
    and "load_tasks s = (Inr tasks, s1)" and "\<exists>t\<in>set tasks. has_id i t"
  shows "fst (cmd_mark_done args now s) = Inr (Marked i ''done'') \<or>
         fst (cmd_mark_done args now s) = Inl StorageIOFailure"
proof -
  obtain k where k: "find_task tasks i = Some k"
    using assms(4) find_task_None [of tasks i] by (cases "find_task tasks i") auto
  have "tasks ! k \<noteq> []" using find_task_Some [OF k] has_id_not_empty by blast
  then show ?thesis
    using assms(1-3) k by (simp add: cmd_mark_done_def save_tasks_def)
qed

lemma cmd_mark_done_InvalidId:
  assumes "length args = 1"
  shows "(fst (cmd_mark_done args now s) = Inl InvalidId) = (\<not> valid_id_token (hd args))"
proof (cases "valid_id_token (hd args)")
  case False
  then show ?thesis using cmd_mark_done_invalid [OF assms] by simp
next
  case True
  then obtain i where p: "parse_id (hd args) = Inr i" by (auto simp: parse_id_valid)
  obtain r s1 where l: "load_tasks s = (r, s1)" by (cases "load_tasks s")
  show ?thesis
  proof (cases r)
    case (Inl e)
    then have "e \<noteq> InvalidId" using l load_tasks_Inl by blast
    then show ?thesis using cmd_mark_done_load_fails [OF assms p] l Inl True by simp
  next
    case (Inr tasks)
    show ?thesis
    proof (cases "\<exists>t\<in>set tasks. has_id i t")
      case yes: True
      then show ?thesis
        using cmd_mark_done_present [OF assms p, of s tasks s1 now] l Inr True by auto
    next
      case False
      then show ?thesis
        using cmd_mark_done_missing [OF assms p, of s tasks s1 now] l Inr True by auto
    qed
  qed
qed

lemma cmd_mark_done_NotFound:
  assumes "length args = 1" and "parse_id (hd args) = Inr i" and "load_tasks s = (Inr tasks, s1)"
  shows "(fst (cmd_mark_done args now s) = Inl NotFound) = (\<forall>t\<in>set tasks. \<not> has_id i t)"
proof (cases "\<exists>t\<in>set tasks. has_id i t")
  case True
  then show ?thesis using cmd_mark_done_present [OF assms, of now] by auto
next
  case False
  then show ?thesis using cmd_mark_done_missing [OF assms, of now] by auto
qed

subsection \<open>The file system after a failure\<close>

lemma load_tasks_idem: "fst (load_tasks (snd (load_tasks s))) = fst (load_tasks s)"
  by (auto simp: load_tasks_def ensure_db_exists_def
           split: if_splits option.splits content.splits json.splits)

lemma left_as_loadedI:
  assumes "s' = s \<or> s' = snd (load_tasks s)"
  shows "left_as_loaded s s'"
proof -
  obtain r s1 where l: "load_tasks s = (r, s1)" by (cases "load_tasks s")
  have st: "stored s1 = stored s" using l by (rule load_tasks_stored)
  have ex: "db_file s \<noteq> None \<longrightarrow> s1 = s" using load_tasks_state [OF l] by auto
  have id: "fst (load_tasks s1) = fst (load_tasks s)" using load_tasks_idem [of s] l by simp
  show ?thesis using assms l st ex id by (auto simp: left_as_loaded_def)
qed

lemma cmd_add_Inl_state:
  assumes "cmd_add args now s = (Inl e, s')"
  shows "s' = s \<or> s' = snd (load_tasks s)"
  using assms
  by (auto simp: cmd_add_def Let_def dest: save_tasks_Inl(1)
           split: if_splits sum.splits prod.splits)

lemma cmd_update_Inl_state:
  assumes "cmd_update args now s = (Inl e, s')"
  shows "s' = s \<or> s' = snd (load_tasks s)"
  using assms
  by (auto simp: cmd_update_def Let_def dest: save_tasks_Inl(1)
           split: if_splits sum.splits prod.splits option.splits)

lemma cmd_delete_Inl_state:
  assumes "cmd_delete args s = (Inl e, s')"
  shows "s' = s \<or> s' = snd (load_tasks s)"
  using assms
  by (auto simp: cmd_delete_def Let_def dest: save_tasks_Inl(1)
           split: if_splits sum.splits prod.splits)

lemma cmd_mark_in_progress_Inl_state:
  assumes "cmd_mark_in_progress args now s = (Inl e, s')"
  shows "s' = s \<or> s' = snd (load_tasks s)"
  using assms
  by (auto simp: cmd_mark_in_progress_def dest: save_tasks_Inl(1)
           split: if_splits sum.splits prod.splits option.splits)

lemma cmd_mark_done_Inl_state:
  assumes "cmd_mark_done args now s = (Inl e, s')"
  shows "s' = s \<or> s' = snd (load_tasks s)"
  using assms
  by (auto simp: cmd_mark_done_def dest: save_tasks_Inl(1)
           split: if_splits sum.splits prod.splits option.splits)

lemma cmd_list_state: "snd (cmd_list args s) = snd (load_tasks s)"
  by (auto simp: cmd_list_def Let_def split: if_splits sum.splits prod.splits option.splits)

subsection \<open>Listing\<close>

lemma has_int_id_key:
  assumes "has_int_id t"
  shows "list_key t = py_get t ''id''" and "as_int (list_key t) \<noteq> None"
    and "as_int (py_get t ''id'') = Some (int_key t)"
proof -
  show k: "list_key t = py_get t ''id''"
    using assms
    by (auto simp: has_int_id_def list_key_def py_get_def py_get_default_def split: option.splits)
  show "as_int (list_key t) \<noteq> None" using assms k by (simp add: has_int_id_def)
  show "as_int (py_get t ''id'') = Some (int_key t)"
    using assms k by (auto simp: has_int_id_def int_key_def)
qed

lemma int_ids_int_key: "list_all has_int_id ts \<Longrightarrow> int_ids ts = map int_key ts"
  by (induction ts) (auto simp: has_int_id_key(3))

lemma sorted_by_id_int:
  assumes "list_all has_int_id tasks"
  shows "sorted_by_id tasks = Inr (sort_key int_key tasks)"
proof -
  have "list_all (\<lambda>x. as_int (list_key x) \<noteq> None) tasks"
    using assms has_int_id_key(2) by (auto simp: list_all_iff)
  then show ?thesis by (simp add: sorted_by_id_def)
qed

lemma sort_key_int_ids:
  assumes "list_all has_int_id ts"
  shows "sorted (int_ids (sort_key int_key ts))"
    and "length (int_ids (sort_key int_key ts)) = length ts"
proof -
  have "list_all has_int_id (sort_key int_key ts)"
    using assms by (simp add: list_all_iff)
  then have e: "int_ids (sort_key int_key ts) = map int_key (sort_key int_key ts)"
    by (rule int_ids_int_key)
  show "sorted (int_ids (sort_key int_key ts))" unfolding e by (rule sorted_sort_key)
  show "length (int_ids (sort_key int_key ts)) = length ts" unfolding e by simp
qed

lemma sorted_by_id_fst:
  "(\<exists>out. sorted_by_id tasks = Inr out) \<or> sorted_by_id tasks = Inl NonIntegerSortKey"
  by (simp add: sorted_by_id_def)

lemma cmd_list_no_filter:
  assumes "load_tasks s = (Inr tasks, s1)"
  shows "cmd_list [] s =
           (if tasks = [] then (Inr (Listed []), s1)
            else (case sorted_by_id tasks of
                    Inl e \<Rightarrow> (Inl e, s1)
                  | Inr tasks_sorted \<Rightarrow> (Inr (Listed tasks_sorted), s1)))"
  using assms by (simp add: cmd_list_def)

lemma cmd_list_filter:
  assumes "load_tasks s = (Inr tasks, s1)" and "lower (strip a) \<in> VALID_STATUSES"
  shows "cmd_list [a] s =
           (if filter (has_status (lower (strip a))) tasks = [] then (Inr (Listed []), s1)
            else (case sorted_by_id (filter (has_status (lower (strip a))) tasks) of
                    Inl e \<Rightarrow> (Inl e, s1)
                  | Inr tasks_sorted \<Rightarrow> (Inr (Listed tasks_sorted), s1)))"
proof -
  have "lower (strip a) \<noteq> []" using assms(2) by (auto simp: VALID_STATUSES_def)
  then show ?thesis
    using assms by (simp add: cmd_list_def Let_def has_status_def [abs_def])
qed

lemma cmd_list_InvalidFilter:
  assumes "load_tasks s = (Inr tasks, s1)"
  shows "(fst (cmd_list args s) = Inl InvalidFilter) =
           (length args = 1 \<and> lower (strip (hd args)) \<notin> VALID_STATUSES)"
proof (cases "length args = 1")
  case True
  then obtain a where a: "args = [a]" by (cases args) auto
  show ?thesis
  proof (cases "lower (strip a) \<in> VALID_STATUSES")
    case False
    then show ?thesis using assms a by (simp add: cmd_list_def)
  next
    case True
    show ?thesis
      using cmd_list_filter [OF assms True]
        sorted_by_id_fst [of "filter (has_status (lower (strip a))) tasks"] a True
      by auto
  qed
next
  case False
  show ?thesis
  proof (cases "args = []")
    case True
    then show ?thesis
      using cmd_list_no_filter [OF assms] sorted_by_id_fst [of tasks] by auto
  next
    case ne: False
    then have "1 < length args" using False by (cases args) auto
    then show ?thesis using assms False by (simp add: cmd_list_def)
  qed
qed

lemma list_fs_facts:
  "load_tasks list_fs = (Inr [task3, task1, task2], list_fs)"
  "list_all has_int_id [task3, task1, task2]"
  by (simp_all add: load_tasks_def ensure_db_exists_def list_fs_def has_int_id_def py_get_def
        task1_def task2_def task3_def)

section \<open>The claims\<close>

subsection \<open>C1: ids along a sequence of add and delete\<close>

text \<open>
  Claim C1 says that along every sequence of \<^verbatim>\<open>add\<close> and \<^verbatim>\<open>delete\<close> from the empty
  collection the ids assigned by \<^verbatim>\<open>add\<close> increase strictly and no id is assigned
  twice, also after a delete. \<^verbatim>\<open>next_id\<close> computes the id from the tasks that are
  stored at that moment, so the claim fails when the task with the largest id is
  deleted: add, delete 1, add assigns the id 1 twice.
\<close>

theorem id_reuse_counterexample:
  "added_ids (fst (run [Add [''a''] ''t1'', Delete [''1''], Add [''b''] ''t2''] empty_fs)) = [1, 1]"
  by code_simp

text \<open>
  C1, as amended. Along every sequence of \<^verbatim>\<open>add\<close> and \<^verbatim>\<open>delete\<close> invocations that
  starts from the empty collection (no file, or a file holding the empty array):
  \<^item> every stored task has an integer id and the stored ids increase strictly in
    insertion order, so they are pairwise distinct;
  \<^item> an \<^verbatim>\<open>add\<close> that succeeds assigns a positive id greater than every id stored at
    that moment, so an id is assigned again only when it and every larger id have
    been deleted;
  \<^item> in a sequence without \<^verbatim>\<open>delete\<close> the assigned ids increase strictly.
\<close>

theorem add_delete_ids:
  assumes "db_file s0 = None \<or> db_file s0 = Some (Doc (JList []))"
  shows "ids_increasing (stored (snd (run cs s0))) \<and>
         (\<forall>args now i. fst (cmd_add args now (snd (run cs s0))) = Inr (Added i) \<longrightarrow>
            0 < i \<and> (\<forall>j\<in>set (int_ids (stored (snd (run cs s0)))). j < i)) \<and>
         (list_all is_add cs \<longrightarrow> sorted_wrt (<) (added_ids (fst (run cs s0))))"
proof -
  have "stored s0 = []" using assms by (auto simp: stored_def)
  then have "ids_increasing (stored s0)" by (simp add: ids_increasing_def)
  then have "ids_increasing (stored (snd (run cs s0)))" by (rule run_ids_increasing)
  moreover have "\<forall>args now i. fst (cmd_add args now (snd (run cs s0))) = Inr (Added i) \<longrightarrow>
            0 < i \<and> (\<forall>j\<in>set (int_ids (stored (snd (run cs s0)))). j < i)"
    using add_id_above by blast
  moreover have "list_all is_add cs \<longrightarrow> sorted_wrt (<) (added_ids (fst (run cs s0)))"
    using run_adds_increasing by blast
  ultimately show ?thesis by blast
qed

theorem add_delete_ids_witness:
  "db_file empty_fs = None \<and>
   ids_increasing (stored (snd (run [Add [''a''] ''t1'', Add [''b''] ''t2'', Delete [''1'']] empty_fs))) \<and>
   int_ids (stored (snd (run [Add [''a''] ''t1'', Add [''b''] ''t2'', Delete [''1'']] empty_fs))) = [2] \<and>
   fst (cmd_add [''c''] ''t3''
         (snd (run [Add [''a''] ''t1'', Add [''b''] ''t2'', Delete [''1'']] empty_fs)))
     = Inr (Added 3) \<and>
   list_all is_add [Add [''a''] ''t1'', Add [''b''] ''t2''] \<and>
   sorted_wrt (<) (added_ids (fst (run [Add [''a''] ''t1'', Add [''b''] ''t2''] empty_fs)))"
proof -
  have h: "db_file empty_fs = None \<or> db_file empty_fs = Some (Doc (JList []))"
    by (simp add: empty_fs_def)
  have e: "db_file empty_fs = None" by (simp add: empty_fs_def)
  have a: "ids_increasing
             (stored (snd (run [Add [''a''] ''t1'', Add [''b''] ''t2'', Delete [''1'']] empty_fs)))"
    using add_delete_ids [OF h, of "[Add [''a''] ''t1'', Add [''b''] ''t2'', Delete [''1'']]"]
    by blast
  have b: "int_ids (stored (snd (run [Add [''a''] ''t1'', Add [''b''] ''t2'', Delete [''1'']] empty_fs)))
             = [2]"
    by code_simp
  have c: "fst (cmd_add [''c''] ''t3''
                 (snd (run [Add [''a''] ''t1'', Add [''b''] ''t2'', Delete [''1'']] empty_fs)))
             = Inr (Added 3)"
    by code_simp
  have d: "list_all is_add [Add [''a''] ''t1'', Add [''b''] ''t2'']" by simp
  have f: "sorted_wrt (<) (added_ids (fst (run [Add [''a''] ''t1'', Add [''b''] ''t2''] empty_fs)))"
    using add_delete_ids [OF h, of "[Add [''a''] ''t1'', Add [''b''] ''t2'']"] d by blast
  show ?thesis using e a b c d f by blast
qed

subsection \<open>C2: add\<close>

text \<open>
  Claim C2. When the description does not trim to empty, the collection loads and
  the file can be written, \<^verbatim>\<open>add\<close> reports the id \<open>next_id tasks\<close> and stores the
  loaded tasks, unchanged and in their order, followed by one new task. The id is
  one more than the largest integer id of the collection and 0, so it is 1 for a
  collection without ids and \<open>1 + max\<close> of the ids as soon as one id is not
  negative. The new task has that id, the trimmed description, the status
  \<^verbatim>\<open>todo\<close>, and the current time stamp as \<^verbatim>\<open>createdAt\<close> and as \<^verbatim>\<open>updatedAt\<close>.
\<close>

theorem add_appends:
  assumes "args \<noteq> []" and "strip (join '' '' args) \<noteq> []"
    and "load_tasks s = (Inr tasks, s1)" and "writable s1"
  shows "cmd_add args now s =
           (Inr (Added (next_id tasks)),
            s1\<lparr>db_file := Some (Doc (JList (map JDict
                  (tasks @ [new_task (next_id tasks) (strip (join '' '' args)) now]))))\<rparr>) \<and>
         stored (snd (cmd_add args now s)) =
           tasks @ [new_task (next_id tasks) (strip (join '' '' args)) now] \<and>
         next_id tasks = 1 + Max (insert 0 (set (int_ids tasks))) \<and>
         (int_ids tasks = [] \<longrightarrow> next_id tasks = 1) \<and>
         ((\<exists>i\<in>set (int_ids tasks). 0 \<le> i) \<longrightarrow> next_id tasks = 1 + Max (set (int_ids tasks))) \<and>
         py_get (new_task (next_id tasks) (strip (join '' '' args)) now) ''id'' = JInt (next_id tasks) \<and>
         py_get (new_task (next_id tasks) (strip (join '' '' args)) now) ''description''
           = JStr (strip (join '' '' args)) \<and>
         py_get (new_task (next_id tasks) (strip (join '' '' args)) now) ''status'' = JStr ''todo'' \<and>
         py_get (new_task (next_id tasks) (strip (join '' '' args)) now) ''createdAt'' = JStr now \<and>
         py_get (new_task (next_id tasks) (strip (join '' '' args)) now) ''updatedAt'' = JStr now"
proof -
  have run: "cmd_add args now s =
           (Inr (Added (next_id tasks)),
            s1\<lparr>db_file := Some (Doc (JList (map JDict
                  (tasks @ [new_task (next_id tasks) (strip (join '' '' args)) now]))))\<rparr>)"
    using assms by (simp add: cmd_add_def save_tasks_def new_task_def Let_def)
  have st: "stored (snd (cmd_add args now s)) =
           tasks @ [new_task (next_id tasks) (strip (join '' '' args)) now]"
    unfolding run by (simp del: map_append)
  have fields:
    "py_get (new_task (next_id tasks) (strip (join '' '' args)) now) ''id'' = JInt (next_id tasks)"
    "py_get (new_task (next_id tasks) (strip (join '' '' args)) now) ''description''
           = JStr (strip (join '' '' args))"
    "py_get (new_task (next_id tasks) (strip (join '' '' args)) now) ''status'' = JStr ''todo''"
    "py_get (new_task (next_id tasks) (strip (join '' '' args)) now) ''createdAt'' = JStr now"
    "py_get (new_task (next_id tasks) (strip (join '' '' args)) now) ''updatedAt'' = JStr now"
    by (simp_all add: new_task_def py_get_def)
  have m: "next_id tasks = 1 + Max (insert 0 (set (int_ids tasks)))" by (rule next_id_Max)
  have e: "int_ids tasks = [] \<longrightarrow> next_id tasks = 1" using next_id_empty by blast
  have p: "(\<exists>i\<in>set (int_ids tasks). 0 \<le> i) \<longrightarrow> next_id tasks = 1 + Max (set (int_ids tasks))"
    using next_id_Max_nonneg by blast
  show ?thesis using run st fields m e p by blast
qed

theorem add_appends_witness:
  "[''Buy'', '' milk ''] \<noteq> [] \<and> strip (join '' '' [''Buy'', '' milk '']) \<noteq> [] \<and>
   load_tasks two_fs = (Inr [[(''id'', JInt 4), (''description'', JStr ''x'')], [(''id'', JInt 2)]], two_fs) \<and>
   writable two_fs \<and>
   fst (cmd_add [''Buy'', '' milk ''] ''t'' two_fs) = Inr (Added 5) \<and>
   stored (snd (cmd_add [''Buy'', '' milk ''] ''t'' two_fs)) =
     [[(''id'', JInt 4), (''description'', JStr ''x'')], [(''id'', JInt 2)],
      [(''id'', JInt 5), (''description'', JStr ''Buy  milk''), (''status'', JStr ''todo''),
       (''createdAt'', JStr ''t''), (''updatedAt'', JStr ''t'')]]"
proof -
  have a: "[''Buy'', '' milk ''] \<noteq> ([] :: string list)" by simp
  have b: "strip (join '' '' [''Buy'', '' milk '']) \<noteq> []" by code_simp
  have c: "load_tasks two_fs = (Inr [[(''id'', JInt 4), (''description'', JStr ''x'')], [(''id'', JInt 2)]], two_fs)"
    by (simp add: load_tasks_def ensure_db_exists_def two_fs_def)
  have d: "writable two_fs" by (simp add: two_fs_def)
  have n: "next_id [[(''id'', JInt 4), (''description'', JStr ''x'')], [(''id'', JInt 2)]] = 5"
    by code_simp
  have s: "strip (join '' '' [''Buy'', '' milk '']) = ''Buy  milk''" by code_simp
  note T = add_appends [OF a b c d, of "''t''"]
  have r: "fst (cmd_add [''Buy'', '' milk ''] ''t'' two_fs) = Inr (Added 5)"
    using T n by simp
  have st: "stored (snd (cmd_add [''Buy'', '' milk ''] ''t'' two_fs)) =
     [[(''id'', JInt 4), (''description'', JStr ''x'')], [(''id'', JInt 2)],
      [(''id'', JInt 5), (''description'', JStr ''Buy  milk''), (''status'', JStr ''todo''),
       (''createdAt'', JStr ''t''), (''updatedAt'', JStr ''t'')]]"
    using T n s by (simp add: new_task_def)
  show ?thesis using a b c d r st by blast
qed

subsection \<open>C3: the kinds of failure\<close>

text \<open>
  Claim C3 says that \<^verbatim>\<open>update\<close> fails with \<open>EmptyInput\<close> exactly when the
  description trims to empty, and with \<open>NotFound\<close> exactly when the id token is
  valid and no task has the id. \<^verbatim>\<open>cmd_update\<close> tests the id token first, then
  the description, then looks for the task: with the id token \<^verbatim>\<open>0\<close> and a blank
  description it fails with \<open>InvalidId\<close>, and with a valid id that no task has
  and a blank description it fails with \<open>EmptyInput\<close>.
\<close>

theorem update_precedence_counterexample:
  "strip (join '' '' (tl [''0'', ''   ''])) = [] \<and>
   fst (cmd_update [''0'', ''   ''] ''t'' done_fs) = Inl InvalidId \<and>
   fst (cmd_update [''0'', ''   ''] ''t'' done_fs) \<noteq> Inl EmptyInput \<and>
   parse_id ''7'' = Inr 7 \<and>
   load_tasks done_fs = (Inr [task_todo, task_done], done_fs) \<and>
   \<not> has_id 7 task_todo \<and> \<not> has_id 7 task_done \<and>
   fst (cmd_update [''7'', ''   ''] ''t'' done_fs) = Inl EmptyInput \<and>
   fst (cmd_update [''7'', ''   ''] ''t'' done_fs) \<noteq> Inl NotFound"
proof -
  have a: "strip (join '' '' (tl [''0'', ''   ''])) = []" by code_simp
  have b: "fst (cmd_update [''0'', ''   ''] ''t'' done_fs) = Inl InvalidId" by code_simp
  have c: "parse_id ''7'' = Inr 7" by code_simp
  have d: "\<not> has_id 7 task_todo" "\<not> has_id 7 task_done"
    by (simp_all add: has_id_def py_get_def task_todo_def task_done_def)
  have e: "fst (cmd_update [''7'', ''   ''] ''t'' done_fs) = Inl EmptyInput" by code_simp
  show ?thesis using a b c d e done_fs_facts(1) by simp
qed


text \<open>
  C3, as amended. With a description supplied, \<^verbatim>\<open>add\<close> fails with \<open>EmptyInput\<close>
  if and only if the description trims to empty. With an id token supplied,
  \<^verbatim>\<open>update\<close>, \<^verbatim>\<open>delete\<close>, \<^verbatim>\<open>mark-in-progress\<close> and \<^verbatim>\<open>mark-done\<close> fail with
  \<open>InvalidId\<close> if and only if the token is not a positive integer. \<^verbatim>\<open>update\<close>
  fails with \<open>EmptyInput\<close> if and only if the id token is a positive integer and
  the description trims to empty. Given a valid id token, a collection that
  loads and, for \<^verbatim>\<open>update\<close>, a description that does not trim to empty, each of
  the four commands fails with \<open>NotFound\<close> if and only if no task of the
  collection has the id. A token is a positive integer when \<^verbatim>\<open>int\<close> accepts it
  and its value is above 0.
\<close>

theorem failure_kinds:
  "(args \<noteq> [] \<longrightarrow>
      (fst (cmd_add args now s) = Inl EmptyInput) = (strip (join '' '' args) = [])) \<and>
   (2 \<le> length args \<longrightarrow>
      (fst (cmd_update args now s) = Inl InvalidId) = (\<not> valid_id_token (hd args)) \<and>
      (fst (cmd_update args now s) = Inl EmptyInput) =
         (valid_id_token (hd args) \<and> strip (join '' '' (tl args)) = [])) \<and>
   (2 \<le> length args \<and> parse_id (hd args) = Inr i \<and> strip (join '' '' (tl args)) \<noteq> [] \<and>
    load_tasks s = (Inr tasks, s1) \<longrightarrow>
      (fst (cmd_update args now s) = Inl NotFound) = (\<forall>t\<in>set tasks. \<not> has_id i t)) \<and>
   (length args = 1 \<longrightarrow>
      (fst (cmd_delete args s) = Inl InvalidId) = (\<not> valid_id_token (hd args)) \<and>
      (fst (cmd_mark_in_progress args now s) = Inl InvalidId) = (\<not> valid_id_token (hd args)) \<and>
      (fst (cmd_mark_done args now s) = Inl InvalidId) = (\<not> valid_id_token (hd args))) \<and>
   (length args = 1 \<and> parse_id (hd args) = Inr i \<and> load_tasks s = (Inr tasks, s1) \<longrightarrow>
      (fst (cmd_delete args s) = Inl NotFound) = (\<forall>t\<in>set tasks. \<not> has_id i t) \<and>
      (fst (cmd_mark_in_progress args now s) = Inl NotFound) = (\<forall>t\<in>set tasks. \<not> has_id i t) \<and>
      (fst (cmd_mark_done args now s) = Inl NotFound) = (\<forall>t\<in>set tasks. \<not> has_id i t)) \<and>
   (parse_id tok = Inr i) = (py_int tok = Some i \<and> 0 < i) \<and>
   valid_id_token tok = (\<exists>j. parse_id tok = Inr j)"
proof (intro conjI impI)
  show "args \<noteq> [] \<Longrightarrow>
      (fst (cmd_add args now s) = Inl EmptyInput) = (strip (join '' '' args) = [])"
    by (rule cmd_add_EmptyInput)
  show "2 \<le> length args \<Longrightarrow>
      (fst (cmd_update args now s) = Inl InvalidId) = (\<not> valid_id_token (hd args))"
    by (rule cmd_update_InvalidId)
  show "2 \<le> length args \<Longrightarrow>
      (fst (cmd_update args now s) = Inl EmptyInput) =
         (valid_id_token (hd args) \<and> strip (join '' '' (tl args)) = [])"
    by (rule cmd_update_EmptyInput)
  show "2 \<le> length args \<and> parse_id (hd args) = Inr i \<and> strip (join '' '' (tl args)) \<noteq> [] \<and>
    load_tasks s = (Inr tasks, s1) \<Longrightarrow>
      (fst (cmd_update args now s) = Inl NotFound) = (\<forall>t\<in>set tasks. \<not> has_id i t)"
    using cmd_update_NotFound by blast
  show "length args = 1 \<Longrightarrow>
      (fst (cmd_delete args s) = Inl InvalidId) = (\<not> valid_id_token (hd args))"
    by (rule cmd_delete_InvalidId)
  show "length args = 1 \<Longrightarrow>
      (fst (cmd_mark_in_progress args now s) = Inl InvalidId) = (\<not> valid_id_token (hd args))"
    by (rule cmd_mark_in_progress_InvalidId)
  show "length args = 1 \<Longrightarrow>
      (fst (cmd_mark_done args now s) = Inl InvalidId) = (\<not> valid_id_token (hd args))"
    by (rule cmd_mark_done_InvalidId)
  show "length args = 1 \<and> parse_id (hd args) = Inr i \<and> load_tasks s = (Inr tasks, s1) \<Longrightarrow>
      (fst (cmd_delete args s) = Inl NotFound) = (\<forall>t\<in>set tasks. \<not> has_id i t)"
    using cmd_delete_NotFound by blast
  show "length args = 1 \<and> parse_id (hd args) = Inr i \<and> load_tasks s = (Inr tasks, s1) \<Longrightarrow>
      (fst (cmd_mark_in_progress args now s) = Inl NotFound) = (\<forall>t\<in>set tasks. \<not> has_id i t)"
    using cmd_mark_in_progress_NotFound by blast
  show "length args = 1 \<and> parse_id (hd args) = Inr i \<and> load_tasks s = (Inr tasks, s1) \<Longrightarrow>
      (fst (cmd_mark_done args now s) = Inl NotFound) = (\<forall>t\<in>set tasks. \<not> has_id i t)"
    using cmd_mark_done_NotFound by blast
  show "(parse_id tok = Inr i) = (py_int tok = Some i \<and> 0 < i)" by (rule parse_id_Inr)
  show "valid_id_token tok = (\<exists>j. parse_id tok = Inr j)" by (rule parse_id_valid)
qed

theorem failure_kinds_witness:
  "[''  ''] \<noteq> [] \<and> strip (join '' '' [''  '']) = [] \<and>
   fst (cmd_add [''  ''] ''t'' done_fs) = Inl EmptyInput \<and>
   2 \<le> length [''x1'', ''d''] \<and> \<not> valid_id_token (hd [''x1'', ''d'']) \<and>
   fst (cmd_update [''x1'', ''d''] ''t'' done_fs) = Inl InvalidId \<and>
   2 \<le> length [''2'', '' ''] \<and> valid_id_token (hd [''2'', '' '']) \<and>
   strip (join '' '' (tl [''2'', '' ''])) = [] \<and>
   fst (cmd_update [''2'', '' ''] ''t'' done_fs) = Inl EmptyInput \<and>
   2 \<le> length [''7'', ''d''] \<and> parse_id (hd [''7'', ''d'']) = Inr 7 \<and>
   strip (join '' '' (tl [''7'', ''d''])) \<noteq> [] \<and>
   load_tasks done_fs = (Inr [task_todo, task_done], done_fs) \<and>
   \<not> has_id 7 task_todo \<and> \<not> has_id 7 task_done \<and>
   fst (cmd_update [''7'', ''d''] ''t'' done_fs) = Inl NotFound \<and>
   length [''7''] = 1 \<and> parse_id (hd [''7'']) = Inr 7 \<and>
   fst (cmd_delete [''7''] done_fs) = Inl NotFound \<and>
   fst (cmd_mark_in_progress [''7''] ''t'' done_fs) = Inl NotFound \<and>
   fst (cmd_mark_done [''7''] ''t'' done_fs) = Inl NotFound \<and>
   length [''-3''] = 1 \<and> \<not> valid_id_token (hd [''-3'']) \<and>
   fst (cmd_delete [''-3''] done_fs) = Inl InvalidId \<and>
   fst (cmd_mark_in_progress [''-3''] ''t'' done_fs) = Inl InvalidId \<and>
   fst (cmd_mark_done [''-3''] ''t'' done_fs) = Inl InvalidId"
proof -
  have a: "[''  ''] \<noteq> ([] :: string list)" "strip (join '' '' [''  '']) = []"
    by code_simp+
  have a': "fst (cmd_add [''  ''] ''t'' done_fs) = Inl EmptyInput"
    using failure_kinds [of "[''  '']" "''t''" done_fs] a by blast
  have b: "2 \<le> length [''x1'', ''d'']" "\<not> valid_id_token (hd [''x1'', ''d''])"
    by code_simp+
  have b': "fst (cmd_update [''x1'', ''d''] ''t'' done_fs) = Inl InvalidId"
    using failure_kinds [of "[''x1'', ''d'']" "''t''" done_fs] b by blast
  have c: "2 \<le> length [''2'', '' '']" "valid_id_token (hd [''2'', '' ''])"
    "strip (join '' '' (tl [''2'', '' ''])) = []"
    by code_simp+
  have c': "fst (cmd_update [''2'', '' ''] ''t'' done_fs) = Inl EmptyInput"
    using failure_kinds [of "[''2'', '' '']" "''t''" done_fs] c by blast
  have d: "2 \<le> length [''7'', ''d'']" "parse_id (hd [''7'', ''d'']) = Inr 7"
    "strip (join '' '' (tl [''7'', ''d''])) \<noteq> []"
    by code_simp+
  have n: "\<not> has_id 7 task_todo" "\<not> has_id 7 task_done"
    by (simp_all add: has_id_def py_get_def task_todo_def task_done_def)
  then have n': "\<forall>t\<in>set [task_todo, task_done]. \<not> has_id 7 t" by simp
  have d': "fst (cmd_update [''7'', ''d''] ''t'' done_fs) = Inl NotFound"
    using failure_kinds [of "[''7'', ''d'']" "''t''" done_fs 7 "[task_todo, task_done]" done_fs]
      d done_fs_facts(1) n' by blast
  have e: "length [''7''] = 1" "parse_id (hd [''7'']) = Inr 7"
    by code_simp+
  have e': "fst (cmd_delete [''7''] done_fs) = Inl NotFound"
    "fst (cmd_mark_in_progress [''7''] ''t'' done_fs) = Inl NotFound"
    "fst (cmd_mark_done [''7''] ''t'' done_fs) = Inl NotFound"
    using failure_kinds [of "[''7'']" "''t''" done_fs 7 "[task_todo, task_done]" done_fs]
      e done_fs_facts(1) n' by blast+
  have f: "length [''-3''] = 1" "\<not> valid_id_token (hd [''-3''])"
    by code_simp+
  have f': "fst (cmd_delete [''-3''] done_fs) = Inl InvalidId"
    "fst (cmd_mark_in_progress [''-3''] ''t'' done_fs) = Inl InvalidId"
    "fst (cmd_mark_done [''-3''] ''t'' done_fs) = Inl InvalidId"
    using failure_kinds [of "[''-3'']" "''t''" done_fs] f by blast+
  show ?thesis
    using a a' b b' c c' d done_fs_facts(1) n d' e e' f f' by blast
qed

subsection \<open>C4: a failing command changes nothing\<close>

text \<open>
  Claim C4. When \<^verbatim>\<open>add\<close>, \<^verbatim>\<open>update\<close>, \<^verbatim>\<open>delete\<close>, \<^verbatim>\<open>mark-in-progress\<close>,
  \<^verbatim>\<open>mark-done\<close> or \<^verbatim>\<open>list\<close> fails with \<open>EmptyInput\<close>, \<open>InvalidId\<close>, \<open>NotFound\<close> or
  \<open>InvalidFilter\<close>, the file system is left as loaded: \<^verbatim>\<open>save_tasks\<close> has not
  changed the file, the stored tasks are the ones that were stored before, and
  a file that existed is exactly as it was. (A first run creates the file
  holding the empty array when it loads, also when the command then fails.)
  What a command that succeeds stores is the subject of C2, C5 and C7.
\<close>

theorem failure_leaves_store:
  assumes "e = EmptyInput \<or> e = InvalidId \<or> e = NotFound \<or> e = InvalidFilter"
  shows "(fst (cmd_add args now s) = Inl e \<longrightarrow> left_as_loaded s (snd (cmd_add args now s))) \<and>
         (fst (cmd_update args now s) = Inl e \<longrightarrow> left_as_loaded s (snd (cmd_update args now s))) \<and>
         (fst (cmd_delete args s) = Inl e \<longrightarrow> left_as_loaded s (snd (cmd_delete args s))) \<and>
         (fst (cmd_mark_in_progress args now s) = Inl e \<longrightarrow>
            left_as_loaded s (snd (cmd_mark_in_progress args now s))) \<and>
         (fst (cmd_mark_done args now s) = Inl e \<longrightarrow>
            left_as_loaded s (snd (cmd_mark_done args now s))) \<and>
         (fst (cmd_list args s) = Inl e \<longrightarrow> left_as_loaded s (snd (cmd_list args s)))"
proof (intro conjI impI)
  assume "fst (cmd_add args now s) = Inl e"
  then have "cmd_add args now s = (Inl e, snd (cmd_add args now s))"
    by (simp add: prod_eq_iff)
  then show "left_as_loaded s (snd (cmd_add args now s))"
    using cmd_add_Inl_state left_as_loadedI by blast
next
  assume "fst (cmd_update args now s) = Inl e"
  then have "cmd_update args now s = (Inl e, snd (cmd_update args now s))"
    by (simp add: prod_eq_iff)
  then show "left_as_loaded s (snd (cmd_update args now s))"
    using cmd_update_Inl_state left_as_loadedI by blast
next
  assume "fst (cmd_delete args s) = Inl e"
  then have "cmd_delete args s = (Inl e, snd (cmd_delete args s))"
    by (simp add: prod_eq_iff)
  then show "left_as_loaded s (snd (cmd_delete args s))"
    using cmd_delete_Inl_state left_as_loadedI by blast
next
  assume "fst (cmd_mark_in_progress args now s) = Inl e"
  then have "cmd_mark_in_progress args now s = (Inl e, snd (cmd_mark_in_progress args now s))"
    by (simp add: prod_eq_iff)
  then show "left_as_loaded s (snd (cmd_mark_in_progress args now s))"
    using cmd_mark_in_progress_Inl_state left_as_loadedI by blast
next
  assume "fst (cmd_mark_done args now s) = Inl e"
  then have "cmd_mark_done args now s = (Inl e, snd (cmd_mark_done args now s))"
    by (simp add: prod_eq_iff)
  then show "left_as_loaded s (snd (cmd_mark_done args now s))"
    using cmd_mark_done_Inl_state left_as_loadedI by blast
next
  show "left_as_loaded s (snd (cmd_list args s))"
    using cmd_list_state left_as_loadedI by simp
qed


theorem failure_leaves_store_witness:
  "fst (cmd_delete [''7''] done_fs) = Inl NotFound \<and>
   db_file done_fs \<noteq> None \<and>
   snd (cmd_delete [''7''] done_fs) = done_fs \<and>
   fst (cmd_update [''2'', ''  ''] ''t'' done_fs) = Inl EmptyInput \<and>
   snd (cmd_update [''2'', ''  ''] ''t'' done_fs) = done_fs \<and>
   fst (cmd_mark_done [''zero''] ''t'' done_fs) = Inl InvalidId \<and>
   snd (cmd_mark_done [''zero''] ''t'' done_fs) = done_fs \<and>
   fst (cmd_list [''bogus''] empty_fs) = Inl InvalidFilter \<and>
   stored (snd (cmd_list [''bogus''] empty_fs)) = stored empty_fs \<and>
   fst (load_tasks (snd (cmd_list [''bogus''] empty_fs))) = fst (load_tasks empty_fs)"
proof -
  have ne: "db_file done_fs \<noteq> None" by (simp add: done_fs_def)
  have a: "fst (cmd_delete [''7''] done_fs) = Inl NotFound" by code_simp
  have a': "snd (cmd_delete [''7''] done_fs) = done_fs"
    using failure_leaves_store [of NotFound "[''7'']" "''t''" done_fs] a ne
    by (simp add: left_as_loaded_def)
  have b: "fst (cmd_update [''2'', ''  ''] ''t'' done_fs) = Inl EmptyInput" by code_simp
  have b': "snd (cmd_update [''2'', ''  ''] ''t'' done_fs) = done_fs"
    using failure_leaves_store [of EmptyInput "[''2'', ''  '']" "''t''" done_fs] b ne
    by (simp add: left_as_loaded_def)
  have c: "fst (cmd_mark_done [''zero''] ''t'' done_fs) = Inl InvalidId" by code_simp
  have c': "snd (cmd_mark_done [''zero''] ''t'' done_fs) = done_fs"
    using failure_leaves_store [of InvalidId "[''zero'']" "''t''" done_fs] c ne
    by (simp add: left_as_loaded_def)
  have d: "fst (cmd_list [''bogus''] empty_fs) = Inl InvalidFilter" by code_simp
  have d': "stored (snd (cmd_list [''bogus''] empty_fs)) = stored empty_fs"
    "fst (load_tasks (snd (cmd_list [''bogus''] empty_fs))) = fst (load_tasks empty_fs)"
    using failure_leaves_store [of InvalidFilter "[''bogus'']" "''t''" empty_fs] d
    by (simp_all add: left_as_loaded_def)
  show ?thesis using ne a a' b b' c c' d d' by blast
qed

subsection \<open>C5: what update and the status commands leave unchanged\<close>

text \<open>
  Claim C5. Let the collection load, let the file be writable and let \<open>k\<close> be
  the first position of the collection whose task has the id \<open>i\<close>: the task
  \<^verbatim>\<open>find_task\<close> returns, and the only one with the id when the ids are pairwise
  distinct. Then \<^verbatim>\<open>update\<close> with a valid id token and a description that does
  not trim to empty succeeds and stores a collection of the same length, equal
  to the loaded one at every position but \<open>k\<close>; at \<open>k\<close> the description is the
  trimmed argument, \<^verbatim>\<open>updatedAt\<close> is the current time stamp, and every other key
  (so \<^verbatim>\<open>id\<close>, \<^verbatim>\<open>status\<close> and \<^verbatim>\<open>createdAt\<close>) has the value it had. The same
  holds for \<^verbatim>\<open>mark-in-progress\<close> and \<^verbatim>\<open>mark-done\<close> with \<^verbatim>\<open>status\<close> in the place
  of \<^verbatim>\<open>description\<close>.
\<close>

theorem update_and_mark_frame:
  assumes "load_tasks s = (Inr tasks, s1)" and "writable s1"
    and "k < length tasks" and "has_id i (tasks ! k)" and "\<forall>j<k. \<not> has_id i (tasks ! j)"
  shows
   "(2 \<le> length args \<and> parse_id (hd args) = Inr i \<and> strip (join '' '' (tl args)) \<noteq> [] \<longrightarrow>
       fst (cmd_update args now s) = Inr (Updated i) \<and>
       length (stored (snd (cmd_update args now s))) = length tasks \<and>
       (\<forall>j<length tasks. j \<noteq> k \<longrightarrow> stored (snd (cmd_update args now s)) ! j = tasks ! j) \<and>
       py_get (stored (snd (cmd_update args now s)) ! k) ''description''
         = JStr (strip (join '' '' (tl args))) \<and>
       py_get (stored (snd (cmd_update args now s)) ! k) ''updatedAt'' = JStr now \<and>
       (\<forall>key. key \<noteq> ''description'' \<and> key \<noteq> ''updatedAt'' \<longrightarrow>
          map_of (stored (snd (cmd_update args now s)) ! k) key = map_of (tasks ! k) key)) \<and>
    (length args = 1 \<and> parse_id (hd args) = Inr i \<longrightarrow>
       fst (cmd_mark_in_progress args now s) = Inr (Marked i ''in-progress'') \<and>
       length (stored (snd (cmd_mark_in_progress args now s))) = length tasks \<and>
       (\<forall>j<length tasks. j \<noteq> k \<longrightarrow>
          stored (snd (cmd_mark_in_progress args now s)) ! j = tasks ! j) \<and>
       py_get (stored (snd (cmd_mark_in_progress args now s)) ! k) ''status''
         = JStr ''in-progress'' \<and>
       py_get (stored (snd (cmd_mark_in_progress args now s)) ! k) ''updatedAt'' = JStr now \<and>
       (\<forall>key. key \<noteq> ''status'' \<and> key \<noteq> ''updatedAt'' \<longrightarrow>
          map_of (stored (snd (cmd_mark_in_progress args now s)) ! k) key
            = map_of (tasks ! k) key)) \<and>
    (length args = 1 \<and> parse_id (hd args) = Inr i \<longrightarrow>
       fst (cmd_mark_done args now s) = Inr (Marked i ''done'') \<and>
       length (stored (snd (cmd_mark_done args now s))) = length tasks \<and>
       (\<forall>j<length tasks. j \<noteq> k \<longrightarrow>
          stored (snd (cmd_mark_done args now s)) ! j = tasks ! j) \<and>
       py_get (stored (snd (cmd_mark_done args now s)) ! k) ''status'' = JStr ''done'' \<and>
       py_get (stored (snd (cmd_mark_done args now s)) ! k) ''updatedAt'' = JStr now \<and>
       (\<forall>key. key \<noteq> ''status'' \<and> key \<noteq> ''updatedAt'' \<longrightarrow>
          map_of (stored (snd (cmd_mark_done args now s)) ! k) key = map_of (tasks ! k) key))"
proof (intro conjI impI)
  assume a: "2 \<le> length args \<and> parse_id (hd args) = Inr i \<and> strip (join '' '' (tl args)) \<noteq> []"
  note U = cmd_update_frame [OF assms, of args now]
  show "fst (cmd_update args now s) = Inr (Updated i)" using U a by blast
  show "length (stored (snd (cmd_update args now s))) = length tasks" using U a by blast
  show "\<forall>j<length tasks. j \<noteq> k \<longrightarrow> stored (snd (cmd_update args now s)) ! j = tasks ! j"
    using U a by blast
  show "py_get (stored (snd (cmd_update args now s)) ! k) ''description''
         = JStr (strip (join '' '' (tl args)))" using U a by blast
  show "py_get (stored (snd (cmd_update args now s)) ! k) ''updatedAt'' = JStr now"
    using U a by blast
  show "\<forall>key. key \<noteq> ''description'' \<and> key \<noteq> ''updatedAt'' \<longrightarrow>
          map_of (stored (snd (cmd_update args now s)) ! k) key = map_of (tasks ! k) key"
    using U a by blast
next
  assume a: "length args = 1 \<and> parse_id (hd args) = Inr i"
  note M = cmd_mark_in_progress_frame [OF assms, of args now]
  show "fst (cmd_mark_in_progress args now s) = Inr (Marked i ''in-progress'')"
    using M a by blast
  show "length (stored (snd (cmd_mark_in_progress args now s))) = length tasks"
    using M a by blast
  show "\<forall>j<length tasks. j \<noteq> k \<longrightarrow>
          stored (snd (cmd_mark_in_progress args now s)) ! j = tasks ! j"
    using M a by blast
  show "py_get (stored (snd (cmd_mark_in_progress args now s)) ! k) ''status''
         = JStr ''in-progress''" using M a by blast
  show "py_get (stored (snd (cmd_mark_in_progress args now s)) ! k) ''updatedAt'' = JStr now"
    using M a by blast
  show "\<forall>key. key \<noteq> ''status'' \<and> key \<noteq> ''updatedAt'' \<longrightarrow>
          map_of (stored (snd (cmd_mark_in_progress args now s)) ! k) key
            = map_of (tasks ! k) key"
    using M a by blast
next
  assume a: "length args = 1 \<and> parse_id (hd args) = Inr i"
  note D = cmd_mark_done_frame [OF assms, of args now]
  show "fst (cmd_mark_done args now s) = Inr (Marked i ''done'')" using D a by blast
  show "length (stored (snd (cmd_mark_done args now s))) = length tasks" using D a by blast
  show "\<forall>j<length tasks. j \<noteq> k \<longrightarrow>
          stored (snd (cmd_mark_done args now s)) ! j = tasks ! j"
    using D a by blast
  show "py_get (stored (snd (cmd_mark_done args now s)) ! k) ''status'' = JStr ''done''"
    using D a by blast
  show "py_get (stored (snd (cmd_mark_done args now s)) ! k) ''updatedAt'' = JStr now"
    using D a by blast
  show "\<forall>key. key \<noteq> ''status'' \<and> key \<noteq> ''updatedAt'' \<longrightarrow>
          map_of (stored (snd (cmd_mark_done args now s)) ! k) key = map_of (tasks ! k) key"
    using D a by blast
qed


theorem update_and_mark_frame_witness:
  "load_tasks done_fs = (Inr [task_todo, task_done], done_fs) \<and> writable done_fs \<and>
   (1::nat) < length [task_todo, task_done] \<and> has_id 2 ([task_todo, task_done] ! 1) \<and>
   \<not> has_id 2 ([task_todo, task_done] ! 0) \<and>
   2 \<le> length [''2'', ''new'', ''text ''] \<and> parse_id (hd [''2'', ''new'', ''text '']) = Inr 2 \<and>
   strip (join '' '' (tl [''2'', ''new'', ''text ''])) = ''new text'' \<and>
   fst (cmd_update [''2'', ''new'', ''text ''] ''t9'' done_fs) = Inr (Updated 2) \<and>
   length (stored (snd (cmd_update [''2'', ''new'', ''text ''] ''t9'' done_fs))) = 2 \<and>
   stored (snd (cmd_update [''2'', ''new'', ''text ''] ''t9'' done_fs)) ! 0 = task_todo \<and>
   py_get (stored (snd (cmd_update [''2'', ''new'', ''text ''] ''t9'' done_fs)) ! 1) ''description''
     = JStr ''new text'' \<and>
   py_get (stored (snd (cmd_update [''2'', ''new'', ''text ''] ''t9'' done_fs)) ! 1) ''updatedAt''
     = JStr ''t9'' \<and>
   map_of (stored (snd (cmd_update [''2'', ''new'', ''text ''] ''t9'' done_fs)) ! 1) ''status''
     = Some (JStr ''done'') \<and>
   length [''2''] = 1 \<and> parse_id (hd [''2'']) = Inr 2 \<and>
   fst (cmd_mark_in_progress [''2''] ''t9'' done_fs) = Inr (Marked 2 ''in-progress'') \<and>
   stored (snd (cmd_mark_in_progress [''2''] ''t9'' done_fs)) ! 0 = task_todo \<and>
   map_of (stored (snd (cmd_mark_in_progress [''2''] ''t9'' done_fs)) ! 1) ''description''
     = Some (JStr ''b'') \<and>
   fst (cmd_mark_done [''2''] ''t9'' done_fs) = Inr (Marked 2 ''done'') \<and>
   map_of (stored (snd (cmd_mark_done [''2''] ''t9'' done_fs)) ! 1) ''createdAt''
     = Some (JStr ''t2'')"
proof -
  have nf: "\<not> has_id 2 ([task_todo, task_done] ! 0)"
    by (simp add: has_id_def py_get_def task_todo_def)
  have a1: "2 \<le> length [''2'', ''new'', ''text '']" by simp
  have a2: "parse_id (hd [''2'', ''new'', ''text '']) = Inr 2" by code_simp
  have a3: "strip (join '' '' (tl [''2'', ''new'', ''text ''])) = ''new text''" by code_simp
  have b1: "length [''2''] = 1" by simp
  have b2: "parse_id (hd [''2'']) = Inr 2" by code_simp
  note U = update_and_mark_frame [OF done_fs_facts, of "[''2'', ''new'', ''text '']" "''t9''"]
  note M = update_and_mark_frame [OF done_fs_facts, of "[''2'']" "''t9''"]
  have u: "fst (cmd_update [''2'', ''new'', ''text ''] ''t9'' done_fs) = Inr (Updated 2)"
    "length (stored (snd (cmd_update [''2'', ''new'', ''text ''] ''t9'' done_fs))) = 2"
    "stored (snd (cmd_update [''2'', ''new'', ''text ''] ''t9'' done_fs)) ! 0 = task_todo"
    "py_get (stored (snd (cmd_update [''2'', ''new'', ''text ''] ''t9'' done_fs)) ! 1) ''description''
       = JStr ''new text''"
    "py_get (stored (snd (cmd_update [''2'', ''new'', ''text ''] ''t9'' done_fs)) ! 1) ''updatedAt''
       = JStr ''t9''"
    "map_of (stored (snd (cmd_update [''2'', ''new'', ''text ''] ''t9'' done_fs)) ! 1) ''status''
       = Some (JStr ''done'')"
    using U a1 a2 a3 by (simp_all add: task_done_def)
  have m: "fst (cmd_mark_in_progress [''2''] ''t9'' done_fs) = Inr (Marked 2 ''in-progress'')"
    "stored (snd (cmd_mark_in_progress [''2''] ''t9'' done_fs)) ! 0 = task_todo"
    "map_of (stored (snd (cmd_mark_in_progress [''2''] ''t9'' done_fs)) ! 1) ''description''
       = Some (JStr ''b'')"
    "fst (cmd_mark_done [''2''] ''t9'' done_fs) = Inr (Marked 2 ''done'')"
    "map_of (stored (snd (cmd_mark_done [''2''] ''t9'' done_fs)) ! 1) ''createdAt''
       = Some (JStr ''t2'')"
    using M b1 b2 by (simp_all add: task_done_def)
  show ?thesis
    using done_fs_facts(1,2,3,4) nf a1 a2 a3 b1 b2 u m by blast
qed

subsection \<open>C6: the status commands set the status, whatever it was\<close>

text \<open>
  Claim C6. \<^verbatim>\<open>set_status\<close> stores the status it is given and the current time
  stamp in any task, whatever its status was; this holds for each of
  \<^verbatim>\<open>todo\<close>, \<^verbatim>\<open>in-progress\<close> and \<^verbatim>\<open>done\<close> (and for any other text). The two
  commands that call it, \<^verbatim>\<open>mark-in-progress\<close> and \<^verbatim>\<open>mark-done\<close>, succeed on
  every existing id without any condition on the current status of the task:
  the task at the position \<^verbatim>\<open>find_task\<close> returns gets the new status and the
  new \<^verbatim>\<open>updatedAt\<close>. The program has no command that passes \<^verbatim>\<open>todo\<close> to
  \<^verbatim>\<open>set_status\<close>.
\<close>

theorem set_status_unrestricted:
  assumes "load_tasks s = (Inr tasks, s1)" and "writable s1"
    and "length args = 1" and "parse_id (hd args) = Inr i"
    and "k < length tasks" and "has_id i (tasks ! k)" and "\<forall>j<k. \<not> has_id i (tasks ! j)"
  shows "py_get (set_status t status now) ''status'' = JStr status \<and>
         py_get (set_status t status now) ''updatedAt'' = JStr now \<and>
         cmd_mark_in_progress args now s =
           (Inr (Marked i ''in-progress''),
            s1\<lparr>db_file := Some (Doc (JList (map JDict
                 (tasks[k := set_status (tasks ! k) ''in-progress'' now]))))\<rparr>) \<and>
         py_get (stored (snd (cmd_mark_in_progress args now s)) ! k) ''status''
           = JStr ''in-progress'' \<and>
         py_get (stored (snd (cmd_mark_in_progress args now s)) ! k) ''updatedAt'' = JStr now \<and>
         cmd_mark_done args now s =
           (Inr (Marked i ''done''),
            s1\<lparr>db_file := Some (Doc (JList (map JDict
                 (tasks[k := set_status (tasks ! k) ''done'' now]))))\<rparr>) \<and>
         py_get (stored (snd (cmd_mark_done args now s)) ! k) ''status'' = JStr ''done'' \<and>
         py_get (stored (snd (cmd_mark_done args now s)) ! k) ''updatedAt'' = JStr now"
proof -
  have f: "find_task tasks i = Some k" using assms(5,6,7) by (rule find_task_first)
  note P = cmd_mark_in_progress_found [OF assms(3,4,1,2) f, of now]
  note D = cmd_mark_done_found [OF assms(3,4,1,2) f, of now]
  have p: "py_get (stored (snd (cmd_mark_in_progress args now s)) ! k) ''status''
             = JStr ''in-progress''"
    "py_get (stored (snd (cmd_mark_in_progress args now s)) ! k) ''updatedAt'' = JStr now"
    using assms(5) by (simp_all add: P set_status_fields)
  have d: "py_get (stored (snd (cmd_mark_done args now s)) ! k) ''status'' = JStr ''done''"
    "py_get (stored (snd (cmd_mark_done args now s)) ! k) ''updatedAt'' = JStr now"
    using assms(5) by (simp_all add: D set_status_fields)
  show ?thesis using P D p d set_status_fields(1,2) by blast
qed

theorem set_status_unrestricted_witness:
  "load_tasks done_fs = (Inr [task_todo, task_done], done_fs) \<and> writable done_fs \<and>
   length [''2''] = 1 \<and> parse_id (hd [''2'']) = Inr 2 \<and>
   (1::nat) < length [task_todo, task_done] \<and> has_id 2 ([task_todo, task_done] ! 1) \<and>
   \<not> has_id 2 ([task_todo, task_done] ! 0) \<and>
   py_get task_done ''status'' = JStr ''done'' \<and>
   py_get (set_status task_done ''todo'' ''t9'') ''status'' = JStr ''todo'' \<and>
   py_get (stored (snd (cmd_mark_in_progress [''2''] ''t9'' done_fs)) ! 1) ''status''
     = JStr ''in-progress'' \<and>
   py_get (stored (snd (cmd_mark_in_progress [''2''] ''t9'' done_fs)) ! 1) ''updatedAt''
     = JStr ''t9'' \<and>
   py_get (stored (snd (cmd_mark_done [''2''] ''t9'' done_fs)) ! 1) ''status'' = JStr ''done'' \<and>
   py_get (stored (snd (cmd_mark_done [''2''] ''t9'' done_fs)) ! 1) ''updatedAt'' = JStr ''t9''"
proof -
  have nf: "\<not> has_id 2 ([task_todo, task_done] ! 0)"
    by (simp add: has_id_def py_get_def task_todo_def)
  have b1: "length [''2''] = 1" by simp
  have b2: "parse_id (hd [''2'']) = Inr 2" by code_simp
  have c: "py_get task_done ''status'' = JStr ''done''"
    by (simp add: py_get_def task_done_def)
  note T = set_status_unrestricted [OF done_fs_facts(1,2) b1 b2 done_fs_facts(3,4,5),
             of task_done "''todo''" "''t9''"]
  show ?thesis using done_fs_facts(1,2,3,4) nf b1 b2 c T by blast
qed

subsection \<open>C7: delete\<close>

text \<open>
  Claim C7. A collection has unique ids: every task has an integer id and no two
  tasks have the same id, which is what the claim's source states (ids are
  unique, so at most one can match) and what holds of every collection built by
  \<^verbatim>\<open>add\<close> and \<^verbatim>\<open>delete\<close> from the empty one. For every such collection that
  loads and holds a task with the given id, and a file that can be written,
  \<^verbatim>\<open>delete\<close> succeeds and removes exactly one task, the one with the id: the
  collection is \<open>xs\<close>, that task, \<open>ys\<close>, and the tasks stored afterwards are
  \<open>xs\<close> followed by \<open>ys\<close>, so every other task is unchanged and in the same
  relative order. No stored task has the id afterwards, and the ids are still
  unique.
\<close>

theorem delete_removes_one:
  assumes "length args = 1" and "parse_id (hd args) = Inr i"
    and "load_tasks s = (Inr tasks, s1)" and "writable s1"
    and "unique_ids tasks" and "\<exists>t\<in>set tasks. has_id i t"
  shows "fst (cmd_delete args s) = Inr (Deleted i) \<and>
         (\<exists>xs t ys. tasks = xs @ t # ys \<and> has_id i t \<and>
                     stored (snd (cmd_delete args s)) = xs @ ys) \<and>
         length (stored (snd (cmd_delete args s))) + 1 = length tasks \<and>
         stored (snd (cmd_delete args s)) = filter (\<lambda>t. \<not> has_id i t) tasks \<and>
         (\<forall>t\<in>set (stored (snd (cmd_delete args s))). \<not> has_id i t) \<and>
         unique_ids (stored (snd (cmd_delete args s))) \<and>
         (db_file s0 = None \<or> db_file s0 = Some (Doc (JList [])) \<longrightarrow>
            unique_ids (stored (snd (run cs s0))))"
proof -
  note run = cmd_delete_found [OF assms(1,2,3,6,4)]
  have r: "fst (cmd_delete args s) = Inr (Deleted i)" by (simp add: run)
  have st: "stored (snd (cmd_delete args s)) = filter (\<lambda>t. \<not> has_id i t) tasks"
    by (simp add: run)
  have one: "length (filter (has_id i) tasks) = 1"
    using assms(5,6) by (rule unique_ids_exactly_one)
  have split: "\<exists>xs t ys. tasks = xs @ t # ys \<and> has_id i t \<and>
                        stored (snd (cmd_delete args s)) = xs @ ys"
    using filter_single_split [OF one] by (simp add: st)
  have len: "length (stored (snd (cmd_delete args s))) + 1 = length tasks"
    using sum_length_filter_compl [of "has_id i" tasks] one by (simp add: st)
  have none: "\<forall>t\<in>set (stored (snd (cmd_delete args s))). \<not> has_id i t"
    by (simp add: st)
  have uniq: "unique_ids (stored (snd (cmd_delete args s)))"
    using assms(5) by (simp add: st unique_ids_filter)
  have built: "db_file s0 = None \<or> db_file s0 = Some (Doc (JList [])) \<longrightarrow>
            unique_ids (stored (snd (run cs s0)))"
    using run_unique_ids by blast
  show ?thesis by (intro conjI r split len st none uniq built)
qed

theorem delete_removes_one_witness:
  "length [''1''] = 1 \<and> parse_id (hd [''1'']) = Inr 1 \<and>
   load_tasks built_fs = (Inr [new_task 1 ''a'' ''t1'', new_task 2 ''b'' ''t2''], built_fs) \<and>
   writable built_fs \<and>
   unique_ids [new_task 1 ''a'' ''t1'', new_task 2 ''b'' ''t2''] \<and>
   has_id 1 (new_task 1 ''a'' ''t1'') \<and>
   fst (cmd_delete [''1''] built_fs) = Inr (Deleted 1) \<and>
   length (stored (snd (cmd_delete [''1''] built_fs))) + 1 = 2 \<and>
   stored (snd (cmd_delete [''1''] built_fs)) = [new_task 2 ''b'' ''t2'']"
proof -
  have a: "length [''1''] = 1" by simp
  have b: "parse_id (hd [''1'']) = Inr 1" by code_simp
  have c: "load_tasks built_fs
             = (Inr [new_task 1 ''a'' ''t1'', new_task 2 ''b'' ''t2''], built_fs)"
    by code_simp
  have d: "writable built_fs" by code_simp
  have e: "unique_ids [new_task 1 ''a'' ''t1'', new_task 2 ''b'' ''t2'']"
    by (simp add: unique_ids_def has_int_id_def new_task_def py_get_def)
  have h: "has_id 1 (new_task 1 ''a'' ''t1'')"
    by (simp add: has_id_def new_task_def py_get_def)
  then have f: "\<exists>t\<in>set [new_task 1 ''a'' ''t1'', new_task 2 ''b'' ''t2'']. has_id 1 t"
    by simp
  note T = delete_removes_one [OF a b c d e f]
  have r: "fst (cmd_delete [''1''] built_fs) = Inr (Deleted 1)"
    by (rule T [THEN conjunct1])
  have "length (stored (snd (cmd_delete [''1''] built_fs))) + 1
          = length [new_task 1 ''a'' ''t1'', new_task 2 ''b'' ''t2'']"
    by (rule T [THEN conjunct2, THEN conjunct2, THEN conjunct1])
  then have l: "length (stored (snd (cmd_delete [''1''] built_fs))) + 1 = 2" by simp
  have "stored (snd (cmd_delete [''1''] built_fs))
          = filter (\<lambda>t. \<not> has_id 1 t) [new_task 1 ''a'' ''t1'', new_task 2 ''b'' ''t2'']"
    by (rule T [THEN conjunct2, THEN conjunct2, THEN conjunct2, THEN conjunct1])
  then have st: "stored (snd (cmd_delete [''1''] built_fs)) = [new_task 2 ''b'' ''t2'']"
    by (simp add: has_id_def new_task_def py_get_def)
  show ?thesis by (intro conjI a b c d e h r l st)
qed

subsection \<open>C8: list\<close>

text \<open>
  Claim C8. Let the collection load. \<^verbatim>\<open>list\<close> fails with \<open>InvalidFilter\<close> if and
  only if exactly one argument is given and, trimmed and in lower case, it is
  none of \<^verbatim>\<open>todo\<close>, \<^verbatim>\<open>in-progress\<close> and \<^verbatim>\<open>done\<close>. An empty collection, and a
  filter that no task matches, give the empty result and no failure. When every
  task has an integer id, as the tasks of the data model have, \<^verbatim>\<open>list\<close> without
  an argument returns all tasks and \<^verbatim>\<open>list\<close> with a valid filter returns the
  tasks whose status is the filter: the result holds exactly these tasks, each
  as often as the collection does, in ascending order of the ids, and the file
  system is left as loaded.
\<close>

theorem list_filters_and_sorts:
  assumes "load_tasks s = (Inr tasks, s1)"
  shows "((fst (cmd_list args s) = Inl InvalidFilter) =
            (length args = 1 \<and> lower (strip (hd args)) \<notin> VALID_STATUSES)) \<and>
         (tasks = [] \<longrightarrow> cmd_list [] s = (Inr (Listed []), s1)) \<and>
         (lower (strip a) \<in> VALID_STATUSES \<and>
          filter (has_status (lower (strip a))) tasks = [] \<longrightarrow>
            cmd_list [a] s = (Inr (Listed []), s1)) \<and>
         (list_all has_int_id tasks \<longrightarrow>
            cmd_list [] s = (Inr (Listed (sort_key int_key tasks)), s1) \<and>
            mset (sort_key int_key tasks) = mset tasks \<and>
            sorted (int_ids (sort_key int_key tasks)) \<and>
            length (int_ids (sort_key int_key tasks)) = length tasks) \<and>
         (list_all has_int_id tasks \<and> lower (strip a) \<in> VALID_STATUSES \<longrightarrow>
            cmd_list [a] s =
              (Inr (Listed (sort_key int_key (filter (has_status (lower (strip a))) tasks))), s1) \<and>
            mset (sort_key int_key (filter (has_status (lower (strip a))) tasks))
              = mset (filter (has_status (lower (strip a))) tasks) \<and>
            sorted (int_ids (sort_key int_key (filter (has_status (lower (strip a))) tasks))) \<and>
            length (int_ids (sort_key int_key (filter (has_status (lower (strip a))) tasks)))
              = length (filter (has_status (lower (strip a))) tasks))"
proof (intro conjI impI)
  show "(fst (cmd_list args s) = Inl InvalidFilter) =
            (length args = 1 \<and> lower (strip (hd args)) \<notin> VALID_STATUSES)"
    using assms by (rule cmd_list_InvalidFilter)
  show "tasks = [] \<Longrightarrow> cmd_list [] s = (Inr (Listed []), s1)"
    using cmd_list_no_filter [OF assms] by simp
  show "lower (strip a) \<in> VALID_STATUSES \<and> filter (has_status (lower (strip a))) tasks = [] \<Longrightarrow>
            cmd_list [a] s = (Inr (Listed []), s1)"
    using cmd_list_filter [OF assms, of a] by simp
next
  assume w: "list_all has_int_id tasks"
  show "cmd_list [] s = (Inr (Listed (sort_key int_key tasks)), s1)"
    using cmd_list_no_filter [OF assms] sorted_by_id_int [OF w] by simp
  show "mset (sort_key int_key tasks) = mset tasks" by simp
  show "sorted (int_ids (sort_key int_key tasks))" using w by (rule sort_key_int_ids(1))
  show "length (int_ids (sort_key int_key tasks)) = length tasks"
    using w by (rule sort_key_int_ids(2))
next
  assume h: "list_all has_int_id tasks \<and> lower (strip a) \<in> VALID_STATUSES"
  then have w: "list_all has_int_id (filter (has_status (lower (strip a))) tasks)"
    by (simp add: list_all_iff)
  from h have v: "lower (strip a) \<in> VALID_STATUSES" by simp
  show "cmd_list [a] s =
          (Inr (Listed (sort_key int_key (filter (has_status (lower (strip a))) tasks))), s1)"
    using cmd_list_filter [OF assms v] sorted_by_id_int [OF w] by simp
  show "mset (sort_key int_key (filter (has_status (lower (strip a))) tasks))
          = mset (filter (has_status (lower (strip a))) tasks)"
    by simp
  show "sorted (int_ids (sort_key int_key (filter (has_status (lower (strip a))) tasks)))"
    using w by (rule sort_key_int_ids(1))
  show "length (int_ids (sort_key int_key (filter (has_status (lower (strip a))) tasks)))
          = length (filter (has_status (lower (strip a))) tasks)"
    using w by (rule sort_key_int_ids(2))
qed

theorem list_filters_and_sorts_witness:
  "load_tasks list_fs = (Inr [task3, task1, task2], list_fs) \<and>
   list_all has_int_id [task3, task1, task2] \<and>
   cmd_list [] list_fs = (Inr (Listed [task1, task2, task3]), list_fs) \<and>
   lower (strip '' ToDo '') = ''todo'' \<and> ''todo'' \<in> VALID_STATUSES \<and>
   cmd_list ['' ToDo ''] list_fs = (Inr (Listed [task2, task3]), list_fs) \<and>
   lower (strip ''in-progress'') \<in> VALID_STATUSES \<and>
   filter (has_status (lower (strip ''in-progress''))) [task3, task1, task2] = [] \<and>
   cmd_list [''in-progress''] list_fs = (Inr (Listed []), list_fs) \<and>
   length [''bogus''] = 1 \<and> lower (strip (hd [''bogus''])) \<notin> VALID_STATUSES \<and>
   fst (cmd_list [''bogus''] list_fs) = Inl InvalidFilter"
proof -
  have k: "int_key task1 = 1" "int_key task2 = 2" "int_key task3 = 3"
    by (simp_all add: int_key_def list_key_def py_get_default_def task1_def task2_def task3_def)
  have s1: "sort_key int_key [task3, task1, task2] = [task1, task2, task3]"
    by (simp add: k)
  have a: "cmd_list [] list_fs = (Inr (Listed [task1, task2, task3]), list_fs)"
    using list_filters_and_sorts [OF list_fs_facts(1)] list_fs_facts(2) s1 by simp
  have l: "lower (strip '' ToDo '') = ''todo''" by code_simp
  have v: "''todo'' \<in> VALID_STATUSES" by (simp add: VALID_STATUSES_def)
  have f: "filter (has_status ''todo'') [task3, task1, task2] = [task3, task2]"
    by (simp add: has_status_def py_get_def task1_def task2_def task3_def)
  have s2: "sort_key int_key [task3, task2] = [task2, task3]" by (simp add: k)
  have b: "cmd_list ['' ToDo ''] list_fs = (Inr (Listed [task2, task3]), list_fs)"
    using list_filters_and_sorts [OF list_fs_facts(1), of _ "'' ToDo ''"] list_fs_facts(2) l v f s2
    by simp
  have l2: "lower (strip ''in-progress'') = ''in-progress''" by code_simp
  have v2: "lower (strip ''in-progress'') \<in> VALID_STATUSES"
    by (simp add: l2 VALID_STATUSES_def)
  have f2: "filter (has_status (lower (strip ''in-progress''))) [task3, task1, task2] = []"
    by (simp add: l2 has_status_def py_get_def task1_def task2_def task3_def)
  have c: "cmd_list [''in-progress''] list_fs = (Inr (Listed []), list_fs)"
    using list_filters_and_sorts [OF list_fs_facts(1), of _ "''in-progress''"] v2 f2 by blast
  have d1: "length [''bogus''] = 1" by simp
  have l3: "lower (strip ''bogus'') = ''bogus''" by code_simp
  have d2: "lower (strip (hd [''bogus''])) \<notin> VALID_STATUSES"
    by (simp add: l3 VALID_STATUSES_def)
  have d: "fst (cmd_list [''bogus''] list_fs) = Inl InvalidFilter"
    using list_filters_and_sorts [OF list_fs_facts(1), of "[''bogus'']"] d1 d2 by blast
  show ?thesis using list_fs_facts a l v b v2 f2 c d1 d2 d by blast
qed

subsection \<open>C9: what load accepts\<close>

text \<open>
  Claim C9. A file that can be read and decodes to an array loads, without any
  error and without a change of the file, as the elements of the array that are
  JSON objects, in their order: every other element is dropped. A file that is
  not JSON, or whose JSON value is not an array, makes \<^verbatim>\<open>load_tasks\<close> end the
  process with a failure and leaves the file as it is. The structures the claim
  calls well-formed are the JSON objects: \<^verbatim>\<open>load_tasks\<close> tests
  \<^verbatim>\<open>isinstance(t, dict)\<close> and nothing else.
\<close>

theorem load_keeps_dicts:
  assumes "readable s"
  shows "(db_file s = Some (Doc (JList data)) \<longrightarrow>
            load_tasks s = (Inr (dicts data), s) \<and>
            map JDict (dicts data) = filter is_dict data) \<and>
         (db_file s = Some Malformed \<longrightarrow> load_tasks s = (Inl StorageUnreadable, s)) \<and>
         (db_file s = Some (Doc v) \<and> \<not> is_list v \<longrightarrow>
            load_tasks s = (Inl StorageUnreadable, s))"
  using assms load_tasks_list load_tasks_malformed load_tasks_not_list map_JDict_dicts
  by blast

theorem load_keeps_dicts_witness:
  "readable mixed_fs \<and> readable malformed_fs \<and> readable object_fs \<and>
   db_file mixed_fs =
     Some (Doc (JList [JDict [(''id'', JInt 1)], JInt 7, JDict [(''id'', JInt 2)]])) \<and>
   load_tasks mixed_fs = (Inr [[(''id'', JInt 1)], [(''id'', JInt 2)]], mixed_fs) \<and>
   db_file malformed_fs = Some Malformed \<and>
   load_tasks malformed_fs = (Inl StorageUnreadable, malformed_fs) \<and>
   db_file object_fs = Some (Doc (JDict [(''id'', JInt 1)])) \<and>
   \<not> is_list (JDict [(''id'', JInt 1)]) \<and>
   load_tasks object_fs = (Inl StorageUnreadable, object_fs)"
proof -
  have r: "readable mixed_fs" "readable malformed_fs" "readable object_fs"
    by (simp_all add: mixed_fs_def malformed_fs_def object_fs_def)
  have f1: "db_file mixed_fs =
     Some (Doc (JList [JDict [(''id'', JInt 1)], JInt 7, JDict [(''id'', JInt 2)]]))"
    by (simp add: mixed_fs_def)
  have f2: "db_file malformed_fs = Some Malformed" by (simp add: malformed_fs_def)
  have f3: "db_file object_fs = Some (Doc (JDict [(''id'', JInt 1)]))"
    by (simp add: object_fs_def)
  have n: "\<not> is_list (JDict [(''id'', JInt 1)])" by simp
  have l1: "load_tasks mixed_fs = (Inr [[(''id'', JInt 1)], [(''id'', JInt 2)]], mixed_fs)"
    using load_keeps_dicts [OF r(1), of "[JDict [(''id'', JInt 1)], JInt 7, JDict [(''id'', JInt 2)]]"]
      f1 by simp
  have l2: "load_tasks malformed_fs = (Inl StorageUnreadable, malformed_fs)"
    using load_keeps_dicts [OF r(2)] f2 by blast
  have l3: "load_tasks object_fs = (Inl StorageUnreadable, object_fs)"
    using load_keeps_dicts [OF r(3), of _ "JDict [(''id'', JInt 1)]"] f3 n by blast
  show ?thesis using r f1 f2 f3 n l1 l2 l3 by blast
qed

subsection \<open>C10: saving what was loaded\<close>

text \<open>
  Claim C10 says that saving the loaded list leaves every document as it was.
  \<^verbatim>\<open>load_tasks\<close> drops the elements that are not JSON objects, so the list that
  is saved lacks them: an array holding a number between two tasks is written
  back without the number.
\<close>

theorem save_loaded_counterexample:
  "db_file mixed_fs =
     Some (Doc (JList [JDict [(''id'', JInt 1)], JInt 7, JDict [(''id'', JInt 2)]])) \<and>
   save_loaded mixed_fs =
     (Inr (), mixed_fs\<lparr>db_file := Some (Doc (JList [JDict [(''id'', JInt 1)],
                                                       JDict [(''id'', JInt 2)]]))\<rparr>) \<and>
   db_file (snd (save_loaded mixed_fs)) \<noteq> db_file mixed_fs"
  by (simp add: save_loaded_def load_tasks_def ensure_db_exists_def save_tasks_def mixed_fs_def)

text \<open>
  C10, as amended. For a file that can be read and written and decodes to an
  array, saving the loaded list writes the array's JSON objects, in their order
  and with every field as it was, and drops every other element; when every
  element of the array is a JSON object the file system is left exactly as it
  was.
\<close>

theorem save_loaded_keeps_dicts:
  assumes "readable s" and "writable s" and "db_file s = Some (Doc (JList data))"
  shows "save_loaded s = (Inr (), s\<lparr>db_file := Some (Doc (JList (filter is_dict data)))\<rparr>) \<and>
         (list_all is_dict data \<longrightarrow> save_loaded s = (Inr (), s))"
proof -
  have l: "load_tasks s = (Inr (dicts data), s)"
    using assms(1,3) by (rule load_tasks_list)
  have a: "save_loaded s = (Inr (), s\<lparr>db_file := Some (Doc (JList (filter is_dict data)))\<rparr>)"
    using assms(2) by (simp add: save_loaded_def l save_tasks_def map_JDict_dicts)
  have "s\<lparr>db_file := Some (Doc (JList data))\<rparr> = s" using assms(3) by simp
  then have "list_all is_dict data \<longrightarrow> save_loaded s = (Inr (), s)"
    using a by (auto simp: filter_is_dict_all)
  then show ?thesis using a by blast
qed

theorem save_loaded_keeps_dicts_witness:
  "readable two_fs \<and> writable two_fs \<and>
   db_file two_fs = Some (Doc (JList [JDict [(''id'', JInt 4), (''description'', JStr ''x'')],
                                   JDict [(''id'', JInt 2)]])) \<and>
   list_all is_dict [JDict [(''id'', JInt 4), (''description'', JStr ''x'')],
                     JDict [(''id'', JInt 2)]] \<and>
   save_loaded two_fs = (Inr (), two_fs)"
proof -
  have r: "readable two_fs" and w: "writable two_fs"
    and f: "db_file two_fs = Some (Doc (JList [JDict [(''id'', JInt 4), (''description'', JStr ''x'')],
                                            JDict [(''id'', JInt 2)]]))"
    by (simp_all add: two_fs_def)
  have a: "list_all is_dict [JDict [(''id'', JInt 4), (''description'', JStr ''x'')],
                             JDict [(''id'', JInt 2)]]"
    by simp
  have "save_loaded two_fs = (Inr (), two_fs)"
    using save_loaded_keeps_dicts [OF r w f] a by blast
  then show ?thesis using r w f a by blast
qed

end
